theory Spec2Isabelle
  imports Complex_Main "HOL-Library.Word" "HOL-Library.Multiset"
begin

section \<open>Python values used by the crawler\<close>

text \<open>
  A Python \<open>str\<close> is a sequence of Unicode code points, so \<open>len\<close> is the length of the
  list. \<open>ustr\<close> turns an ASCII literal of the source into that representation.
  A \<open>dict\<close> keeps its keys in insertion order: it is an association list with distinct
  keys, \<open>dict_set\<close> overwrites the value of a key in place and appends a new key.
\<close>

type_synonym pystr = "nat list"

definition ustr :: "string \<Rightarrow> pystr" where
  "ustr s = map of_char s"

type_synonym datetime = real

datatype py_error =
    UnicodeDecodeError
  | KeyError
  | IndexError
  | TypeError
  | ValueError
  | FileNotFoundError
  | CsvError

type_synonym ('k, 'v) dict = "('k \<times> 'v) list"

fun dict_get :: "('k, 'v) dict \<Rightarrow> 'k \<Rightarrow> 'v option" where
  "dict_get [] k = None"
| "dict_get ((k', v) # d) k = (if k' = k then Some v else dict_get d k)"

fun dict_set :: "('k, 'v) dict \<Rightarrow> 'k \<Rightarrow> 'v \<Rightarrow> ('k, 'v) dict" where
  "dict_set [] k v = [(k, v)]"
| "dict_set ((k', v') # d) k v = (if k' = k then (k, v) # d else (k', v') # dict_set d k v)"

definition dict_values :: "('k, 'v) dict \<Rightarrow> 'v list" where
  "dict_values d = map snd d"

definition dict_keys :: "('k, 'v) dict \<Rightarrow> 'k list" where
  "dict_keys d = map fst d"

text \<open>\<open>a or b\<close> on an optional integer: \<open>None\<close> and \<open>0\<close> are falsy.\<close>

definition py_or :: "int option \<Rightarrow> int \<Rightarrow> int" where
  "py_or a b = (case a of None \<Rightarrow> b | Some n \<Rightarrow> if n = 0 then b else n)"

section \<open>app/models/schemas.py and app/core/config.py\<close>

datatype CrawlStatus = PENDING | IN_PROGRESS | COMPLETED | FAILED

record OnionLink =
  link_url :: pystr
  link_title :: "pystr option"
  link_engine :: "pystr option"
  link_status :: pystr

record CrawledPage =
  page_url :: pystr
  page_title :: "pystr option"
  text_content :: pystr
  images :: "pystr list"
  crawl_timestamp :: datetime
  file_path :: "pystr option"
  page_status :: pystr

record CrawlJob =
  job_id :: pystr
  job_query :: pystr
  job_status :: CrawlStatus
  created_at :: datetime
  updated_at :: datetime
  total_links :: int
  crawled_links :: int
  failed_links :: int
  pages :: "CrawledPage list"
  error_message :: "py_error option"

text \<open>
  The settings that the crawler reads. \<open>settings\<close> holds the defaults of
  \<open>config.py\<close>, which a deployment can override through its environment.
\<close>

record Settings =
  TOR_PROXY_HOST :: pystr
  TOR_PROXY_PORT :: int
  DEFAULT_CRAWL_LIMIT :: int
  CRAWL_DELAY :: real
  ONIONSEARCH_PER_ENGINE_LIMIT :: int
  OUTPUT_DIR :: pystr

definition settings :: Settings where
  "settings = \<lparr> TOR_PROXY_HOST = ustr ''127.0.0.1'', TOR_PROXY_PORT = 9050,
     DEFAULT_CRAWL_LIMIT = 10, CRAWL_DELAY = 2, ONIONSEARCH_PER_ENGINE_LIMIT = 5,
     OUTPUT_DIR = ustr ''data'' \<rparr>"

section \<open>app/services/crawler_service.py: the job registry\<close>

text \<open>
  \<open>active_jobs\<close> is the dict of the service. A task handed to \<open>asyncio.create_task\<close> is
  returned as a value: it has not run when \<open>start_crawl\<close> returns. The value of
  \<open>uuid.uuid4()\<close> and the two readings of the clock are inputs of the call.
\<close>

record CrawlerService =
  active_jobs :: "(pystr, CrawlJob) dict"

record crawl_task =
  task_job_id :: pystr
  task_query :: pystr
  task_limit :: int

fun find_existing :: "CrawlJob list \<Rightarrow> pystr \<Rightarrow> CrawlJob option" where
  "find_existing [] query = None"
| "find_existing (existing_job # rest) query =
     (if job_query existing_job = query \<and> job_status existing_job \<in> set [PENDING, IN_PROGRESS]
      then Some existing_job
      else find_existing rest query)"

definition new_job :: "pystr \<Rightarrow> pystr \<Rightarrow> datetime \<Rightarrow> datetime \<Rightarrow> CrawlJob" where
  "new_job jid query now1 now2 =
     \<lparr> job_id = jid, job_query = query, job_status = PENDING,
       created_at = now1, updated_at = now2,
       total_links = 0, crawled_links = 0, failed_links = 0,
       pages = [], error_message = None \<rparr>"

definition start_crawl ::
  "Settings \<Rightarrow> CrawlerService \<Rightarrow> pystr \<Rightarrow> int option \<Rightarrow> pystr \<Rightarrow> datetime \<Rightarrow> datetime
     \<Rightarrow> pystr \<times> CrawlerService \<times> crawl_task option" where
  "start_crawl cfg svc query limit uuid4 now1 now2 =
     (case find_existing (dict_values (active_jobs svc)) query of
        Some existing_job \<Rightarrow> (job_id existing_job, svc, None)
      | None \<Rightarrow>
          (let jid = uuid4;
               limit' = py_or limit (DEFAULT_CRAWL_LIMIT cfg);
               job = new_job jid query now1 now2
           in (jid,
               svc\<lparr>active_jobs := dict_set (active_jobs svc) jid job\<rparr>,
               Some \<lparr> task_job_id = jid, task_query = query, task_limit = limit' \<rparr>)))"

definition get_job_status :: "CrawlerService \<Rightarrow> pystr \<Rightarrow> CrawlJob option" where
  "get_job_status svc jid = dict_get (active_jobs svc) jid"

definition get_job_pages :: "CrawlerService \<Rightarrow> pystr \<Rightarrow> CrawledPage list" where
  "get_job_pages svc jid =
     (case dict_get (active_jobs svc) jid of Some job \<Rightarrow> pages job | None \<Rightarrow> [])"

text \<open>
  The executor mutates the job object that the registry refers to; seen from the
  registry this is an update of the value stored under the job's key.
\<close>

fun mutate_job :: "(pystr, CrawlJob) dict \<Rightarrow> pystr \<Rightarrow> (CrawlJob \<Rightarrow> CrawlJob) \<Rightarrow> (pystr, CrawlJob) dict" where
  "mutate_job [] jid f = []"
| "mutate_job ((k, job) # d) jid f =
     (if k = jid then (k, f job) # d else (k, job) # mutate_job d jid f)"

definition set_job_status :: "CrawlerService \<Rightarrow> pystr \<Rightarrow> CrawlStatus \<Rightarrow> CrawlerService" where
  "set_job_status svc jid st =
     svc\<lparr>active_jobs := mutate_job (active_jobs svc) jid (\<lambda>job. job\<lparr>job_status := st\<rparr>)\<rparr>"

text \<open>
  What holds of every registry that \<open>start_crawl\<close> builds: a job is stored under
  its own id, and a query has at most one job that is pending or in progress.
\<close>

definition is_active :: "CrawlJob \<Rightarrow> bool" where
  "is_active job = (job_status job \<in> set [PENDING, IN_PROGRESS])"

fun keyed_by_id :: "(pystr, CrawlJob) dict \<Rightarrow> bool" where
  "keyed_by_id [] = True"
| "keyed_by_id ((k, job) # d) = (job_id job = k \<and> k \<notin> set (dict_keys d) \<and> keyed_by_id d)"

fun one_active_per_query :: "CrawlJob list \<Rightarrow> bool" where
  "one_active_per_query [] = True"
| "one_active_per_query (job # js) =
     ((is_active job \<longrightarrow> find_existing js (job_query job) = None) \<and> one_active_per_query js)"

definition registry_ok :: "CrawlerService \<Rightarrow> bool" where
  "registry_ok svc =
     (keyed_by_id (active_jobs svc) \<and> one_active_per_query (dict_values (active_jobs svc)))"

section \<open>Strings\<close>

text \<open>
  \<open>str.startswith\<close>, \<open>str.endswith\<close>, the substring test \<open>sub in s\<close>, \<open>str.replace\<close>
  (every occurrence, left to right; the source replaces non-empty literals only),
  \<open>str.strip\<close> with the whitespace of \<open>str.isspace\<close>, \<open>str.split\<close> on a separator
  (the result is never empty) and \<open>str\<close> of an integer.
\<close>

fun startswith :: "'a list \<Rightarrow> 'a list \<Rightarrow> bool" where
  "startswith s [] = True"
| "startswith [] (p # ps) = False"
| "startswith (c # cs) (p # ps) = (c = p \<and> startswith cs ps)"

definition endswith :: "'a list \<Rightarrow> 'a list \<Rightarrow> bool" where
  "endswith s suffix = startswith (rev s) (rev suffix)"

fun py_in :: "'a list \<Rightarrow> 'a list \<Rightarrow> bool" where
  "py_in sub [] = (sub = [])"
| "py_in sub (c # cs) = (startswith (c # cs) sub \<or> py_in sub cs)"

function str_replace :: "'a list \<Rightarrow> 'a list \<Rightarrow> 'a list \<Rightarrow> 'a list" where
  "str_replace [] old new = []"
| "str_replace (c # cs) old new =
     (if old \<noteq> [] \<and> startswith (c # cs) old
      then new @ str_replace (drop (length old) (c # cs)) old new
      else c # str_replace cs old new)"
  by pat_completeness auto
termination
  by (relation "measure (\<lambda>(s, old, new). length s)") (auto simp: neq_Nil_conv)

definition isspace :: "nat \<Rightarrow> bool" where
  "isspace c = (c \<in> set [0x09, 0x0A, 0x0B, 0x0C, 0x0D, 0x1C, 0x1D, 0x1E, 0x1F, 0x20, 0x85, 0xA0,
       0x1680, 0x2000, 0x2001, 0x2002, 0x2003, 0x2004, 0x2005, 0x2006, 0x2007, 0x2008, 0x2009,
       0x200A, 0x2028, 0x2029, 0x202F, 0x205F, 0x3000])"

definition strip :: "pystr \<Rightarrow> pystr" where
  "strip s = rev (dropWhile isspace (rev (dropWhile isspace s)))"

fun split_from :: "'a \<Rightarrow> 'a list \<Rightarrow> 'a list \<Rightarrow> 'a list list" where
  "split_from sep cur [] = [cur]"
| "split_from sep cur (c # cs) =
     (if c = sep then cur # split_from sep [] cs else split_from sep (cur @ [c]) cs)"

definition split :: "'a list \<Rightarrow> 'a \<Rightarrow> 'a list list" where
  "split s sep = split_from sep [] s"

function digits :: "nat \<Rightarrow> pystr" where
  "digits n = (if n < 10 then [48 + n] else digits (n div 10) @ [48 + n mod 10])"
  by pat_completeness auto
termination
  by (relation "measure id") auto

definition str_int :: "int \<Rightarrow> pystr" where
  "str_int i = (if i < 0 then 45 # digits (nat (- i)) else digits (nat i))"

section \<open>Codecs\<close>

text \<open>
  A file is a sequence of bytes. Decoding is strict: \<open>utf-8\<close> rejects overlong forms,
  surrogates and code points beyond \<open>U+10FFFF\<close>; \<open>windows-1252\<close> has no character for
  the bytes \<open>81\<close>, \<open>8D\<close>, \<open>8F\<close>, \<open>90\<close> and \<open>9D\<close>. \<open>None\<close> is \<open>UnicodeDecodeError\<close>.
\<close>

type_synonym byte = "8 word"

datatype encoding = Utf8 | Windows1252

definition is_cont :: "byte \<Rightarrow> bool" where
  "is_cont b = (0x80 \<le> b \<and> b \<le> 0xBF)"

fun decode_utf8 :: "byte list \<Rightarrow> pystr option" where
  "decode_utf8 [] = Some []"
| "decode_utf8 (b0 # bs) =
     (if b0 < 0x80 then map_option ((#) (unat b0)) (decode_utf8 bs)
      else if 0xC2 \<le> b0 \<and> b0 \<le> 0xDF then
        (case bs of
           b1 # r \<Rightarrow>
             if is_cont b1
             then map_option ((#) ((unat b0 - 0xC0) * 64 + (unat b1 - 0x80))) (decode_utf8 r)
             else None
         | _ \<Rightarrow> None)
      else if 0xE0 \<le> b0 \<and> b0 \<le> 0xEF then
        (case bs of
           b1 # b2 # r \<Rightarrow>
             if is_cont b1 \<and> is_cont b2 \<and> (b0 = 0xE0 \<longrightarrow> 0xA0 \<le> b1) \<and> (b0 = 0xED \<longrightarrow> b1 \<le> 0x9F)
             then map_option
                    ((#) ((unat b0 - 0xE0) * 4096 + (unat b1 - 0x80) * 64 + (unat b2 - 0x80)))
                    (decode_utf8 r)
             else None
         | _ \<Rightarrow> None)
      else if 0xF0 \<le> b0 \<and> b0 \<le> 0xF4 then
        (case bs of
           b1 # b2 # b3 # r \<Rightarrow>
             if is_cont b1 \<and> is_cont b2 \<and> is_cont b3
                \<and> (b0 = 0xF0 \<longrightarrow> 0x90 \<le> b1) \<and> (b0 = 0xF4 \<longrightarrow> b1 \<le> 0x8F)
             then map_option
                    ((#) ((unat b0 - 0xF0) * 262144 + (unat b1 - 0x80) * 4096
                          + (unat b2 - 0x80) * 64 + (unat b3 - 0x80)))
                    (decode_utf8 r)
             else None
         | _ \<Rightarrow> None)
      else None)"

definition cp1252_high :: "(nat \<times> nat) list" where
  "cp1252_high =
     [(0x80, 0x20AC), (0x82, 0x201A), (0x83, 0x0192), (0x84, 0x201E), (0x85, 0x2026),
      (0x86, 0x2020), (0x87, 0x2021), (0x88, 0x02C6), (0x89, 0x2030), (0x8A, 0x0160),
      (0x8B, 0x2039), (0x8C, 0x0152), (0x8E, 0x017D), (0x91, 0x2018), (0x92, 0x2019),
      (0x93, 0x201C), (0x94, 0x201D), (0x95, 0x2022), (0x96, 0x2013), (0x97, 0x2014),
      (0x98, 0x02DC), (0x99, 0x2122), (0x9A, 0x0161), (0x9B, 0x203A), (0x9C, 0x0153),
      (0x9E, 0x017E), (0x9F, 0x0178)]"

definition decode_cp1252_byte :: "byte \<Rightarrow> nat option" where
  "decode_cp1252_byte b =
     (if b < 0x80 \<or> 0xA0 \<le> b then Some (unat b) else dict_get cp1252_high (unat b))"

fun decode_cp1252 :: "byte list \<Rightarrow> pystr option" where
  "decode_cp1252 [] = Some []"
| "decode_cp1252 (b # bs) =
     (case decode_cp1252_byte b of
        None \<Rightarrow> None
      | Some c \<Rightarrow> map_option ((#) c) (decode_cp1252 bs))"

fun decode :: "encoding \<Rightarrow> byte list \<Rightarrow> pystr option" where
  "decode Utf8 bs = decode_utf8 bs"
| "decode Windows1252 bs = decode_cp1252 bs"

definition encode_utf8_char :: "nat \<Rightarrow> byte list option" where
  "encode_utf8_char c =
     (if c < 0x80 then Some [of_nat c]
      else if c < 0x800 then Some [of_nat (0xC0 + c div 64), of_nat (0x80 + c mod 64)]
      else if 0xD800 \<le> c \<and> c \<le> 0xDFFF then None
      else if c < 0x10000 then
        Some [of_nat (0xE0 + c div 4096), of_nat (0x80 + c div 64 mod 64), of_nat (0x80 + c mod 64)]
      else if c < 0x110000 then
        Some [of_nat (0xF0 + c div 262144), of_nat (0x80 + c div 4096 mod 64),
              of_nat (0x80 + c div 64 mod 64), of_nat (0x80 + c mod 64)]
      else None)"

fun encode_utf8 :: "pystr \<Rightarrow> byte list option" where
  "encode_utf8 [] = Some []"
| "encode_utf8 (c # cs) =
     (case encode_utf8_char c of
        None \<Rightarrow> None
      | Some bs \<Rightarrow> map_option ((@) bs) (encode_utf8 cs))"

definition try_encodings :: "encoding list" where
  "try_encodings = [Utf8, Windows1252]"

section \<open>Text files\<close>

text \<open>
  A file opened for reading in text mode translates \<open>\r\n\<close> and \<open>\r\<close> to \<open>\n\<close>;
  \<open>readlines\<close> (and iteration over the file) yields the lines with their \<open>\n\<close>.
\<close>

fun universal_newlines :: "pystr \<Rightarrow> pystr" where
  "universal_newlines [] = []"
| "universal_newlines (c # cs) =
     (if c = 13 then
        (case cs of
           c' # cs' \<Rightarrow> if c' = 10 then 10 # universal_newlines cs' else 10 # universal_newlines cs
         | [] \<Rightarrow> [10])
      else c # universal_newlines cs)"

fun lines_from :: "pystr \<Rightarrow> pystr \<Rightarrow> pystr list" where
  "lines_from cur [] = (if cur = [] then [] else [cur])"
| "lines_from cur (c # cs) =
     (if c = 10 then (cur @ [c]) # lines_from [] cs else lines_from (cur @ [c]) cs)"

definition readlines :: "pystr \<Rightarrow> pystr list" where
  "readlines text = lines_from [] (universal_newlines text)"

section \<open>csv.reader and csv.DictReader (excel dialect)\<close>

text \<open>
  The reader is the state machine of the \<open>csv\<close> module for the dialect the source uses
  (delimiter \<open>,\<close>, quote character \<open>"\<close> doubled inside quoted fields, no escape
  character, not strict). A character is \<open>Some c\<close>, the end of a line is \<open>None\<close>.
  \<open>reader_rows\<close> gives the rows read before the first error, and that error if any.
  A DictReader row maps the field names to the fields of the row and the field names
  beyond the row to \<open>None\<close>; the surplus fields of a long row are stored under the key
  \<open>None\<close>, which no lookup of the source uses, and are left out.
\<close>

datatype ParserState =
  START_RECORD | START_FIELD | IN_FIELD | IN_QUOTED_FIELD | QUOTE_IN_QUOTED_FIELD | EAT_CRNL

record Reader =
  state :: ParserState
  rec_fields :: "pystr list"
  field :: pystr

definition field_limit :: nat where
  "field_limit = 131072"

definition parse_reset :: Reader where
  "parse_reset = \<lparr> state = START_RECORD, rec_fields = [], field = [] \<rparr>"

definition parse_save_field :: "Reader \<Rightarrow> Reader" where
  "parse_save_field r = r\<lparr>rec_fields := rec_fields r @ [field r], field := []\<rparr>"

definition parse_add_char :: "Reader \<Rightarrow> nat \<Rightarrow> py_error + Reader" where
  "parse_add_char r c =
     (if length (field r) \<ge> field_limit then Inl CsvError
      else Inr (r\<lparr>field := field r @ [c]\<rparr>))"

definition end_of_record :: "Reader \<Rightarrow> nat option \<Rightarrow> Reader" where
  "end_of_record r c =
     (parse_save_field r)\<lparr>state := (if c = None then START_RECORD else EAT_CRNL)\<rparr>"

definition is_newline :: "nat option \<Rightarrow> bool" where
  "is_newline c = (c = Some 10 \<or> c = Some 13)"

definition start_field :: "Reader \<Rightarrow> nat option \<Rightarrow> py_error + Reader" where
  "start_field r c =
     (case c of
        None \<Rightarrow> Inr (end_of_record r c)
      | Some ch \<Rightarrow>
          if is_newline c then Inr (end_of_record r c)
          else if ch = 34 then Inr (r\<lparr>state := IN_QUOTED_FIELD\<rparr>)
          else if ch = 44 then Inr (parse_save_field r)
          else map_sum id (\<lambda>r'. r'\<lparr>state := IN_FIELD\<rparr>) (parse_add_char r ch))"

definition parse_process_char :: "Reader \<Rightarrow> nat option \<Rightarrow> py_error + Reader" where
  "parse_process_char r c =
     (case state r of
        START_RECORD \<Rightarrow>
          if c = None then Inr r
          else if is_newline c then Inr (r\<lparr>state := EAT_CRNL\<rparr>)
          else start_field (r\<lparr>state := START_FIELD\<rparr>) c
      | START_FIELD \<Rightarrow> start_field r c
      | IN_FIELD \<Rightarrow>
          (case c of
             None \<Rightarrow> Inr (end_of_record r c)
           | Some ch \<Rightarrow>
               if is_newline c then Inr (end_of_record r c)
               else if ch = 44 then Inr ((parse_save_field r)\<lparr>state := START_FIELD\<rparr>)
               else parse_add_char r ch)
      | IN_QUOTED_FIELD \<Rightarrow>
          (case c of
             None \<Rightarrow> Inr r
           | Some ch \<Rightarrow>
               if ch = 34 then Inr (r\<lparr>state := QUOTE_IN_QUOTED_FIELD\<rparr>)
               else parse_add_char r ch)
      | QUOTE_IN_QUOTED_FIELD \<Rightarrow>
          (case c of
             None \<Rightarrow> Inr (end_of_record r c)
           | Some ch \<Rightarrow>
               if ch = 34 then
                 map_sum id (\<lambda>r'. r'\<lparr>state := IN_QUOTED_FIELD\<rparr>) (parse_add_char r ch)
               else if ch = 44 then Inr ((parse_save_field r)\<lparr>state := START_FIELD\<rparr>)
               else if is_newline c then Inr (end_of_record r c)
               else map_sum id (\<lambda>r'. r'\<lparr>state := IN_FIELD\<rparr>) (parse_add_char r ch))
      | EAT_CRNL \<Rightarrow>
          if is_newline c then Inr r
          else if c = None then Inr (r\<lparr>state := START_RECORD\<rparr>)
          else Inl CsvError)"

fun parse_line :: "Reader \<Rightarrow> pystr \<Rightarrow> py_error + Reader" where
  "parse_line r [] = parse_process_char r None"
| "parse_line r (c # cs) =
     (case parse_process_char r (Some c) of
        Inl e \<Rightarrow> Inl e
      | Inr r' \<Rightarrow> parse_line r' cs)"

fun reader_rows :: "Reader \<Rightarrow> pystr list \<Rightarrow> pystr list list \<times> py_error option" where
  "reader_rows r [] =
     (if field r \<noteq> [] \<or> state r = IN_QUOTED_FIELD
      then ([rec_fields (parse_save_field r)], None)
      else ([], None))"
| "reader_rows r (line # rest) =
     (case parse_line r line of
        Inl e \<Rightarrow> ([], Some e)
      | Inr r' \<Rightarrow>
          if state r' = START_RECORD
          then (case reader_rows parse_reset rest of (rows, err) \<Rightarrow> (rec_fields r' # rows, err))
          else reader_rows r' rest)"

definition csv_reader :: "pystr list \<Rightarrow> pystr list list \<times> py_error option" where
  "csv_reader lines = reader_rows parse_reset lines"

definition dict_row :: "pystr list \<Rightarrow> pystr list \<Rightarrow> (pystr, pystr option) dict" where
  "dict_row fieldnames row =
     (let d = fold (\<lambda>(k, v) d. dict_set d k (Some v)) (zip fieldnames row) [];
          lf = length fieldnames;
          lr = length row
      in if lf > lr then fold (\<lambda>key d. dict_set d key None) (drop lr fieldnames) d else d)"

definition row_get :: "(pystr, pystr option) dict \<Rightarrow> pystr \<Rightarrow> pystr \<Rightarrow> pystr option" where
  "row_get row key dflt = (case dict_get row key of None \<Rightarrow> Some dflt | Some v \<Rightarrow> v)"

section \<open>CrawlerService._extract_onion_links\<close>

text \<open>
  \<open>links_of_lines\<close> is the body of the \<open>with\<close> statement, \<open>try_decodings\<close> the loop
  over the encodings: a \<open>UnicodeDecodeError\<close> is raised by \<open>readlines\<close>, before any
  link is appended, and moves on to the next encoding; every other exception leaves the
  function. The argument of \<open>extract_onion_links\<close> is the content of the file at
  \<open>file_path\<close>, \<open>None\<close> when there is no such file.
\<close>

definition onion_link_of_row :: "(pystr, pystr option) dict \<Rightarrow> py_error + OnionLink option" where
  "onion_link_of_row row =
     (case row_get row (ustr ''link'') [] of
        None \<Rightarrow> Inl TypeError
      | Some link \<Rightarrow>
          if py_in (ustr ''.onion'') link
          then Inr (Some \<lparr> link_url = link,
                           link_title = row_get row (ustr ''name'') [],
                           link_engine = row_get row (ustr ''engine'') [],
                           link_status = ustr ''discovered'' \<rparr>)
          else Inr None)"

fun dict_reader_links ::
  "pystr list \<Rightarrow> pystr list list \<Rightarrow> py_error option \<Rightarrow> OnionLink list \<Rightarrow> py_error + OnionLink list" where
  "dict_reader_links fieldnames [] err links = (case err of None \<Rightarrow> Inr links | Some e \<Rightarrow> Inl e)"
| "dict_reader_links fieldnames (row # rows) err links =
     (if row = [] then dict_reader_links fieldnames rows err links
      else case onion_link_of_row (dict_row fieldnames row) of
             Inl e \<Rightarrow> Inl e
           | Inr None \<Rightarrow> dict_reader_links fieldnames rows err links
           | Inr (Some link) \<Rightarrow> dict_reader_links fieldnames rows err (links @ [link]))"

definition header_missing :: "pystr \<Rightarrow> bool" where
  "header_missing first_line = py_in (ustr ''.onion'') (last (split (strip first_line) 44))"

definition fallback_header :: pystr where
  "fallback_header = ustr ''engine,name,link'' @ [10]"

definition links_of_lines :: "pystr list \<Rightarrow> OnionLink list \<Rightarrow> py_error + OnionLink list" where
  "links_of_lines lines links =
     (case lines of
        [] \<Rightarrow> Inl IndexError
      | first_line # rest \<Rightarrow>
          (let lines' = (if header_missing first_line then fallback_header # lines else lines)
           in case csv_reader lines' of
                ([], None) \<Rightarrow> Inr links
              | ([], Some e) \<Rightarrow> Inl e
              | (fieldnames # rows, err) \<Rightarrow> dict_reader_links fieldnames rows err links))"

fun try_decodings :: "encoding list \<Rightarrow> byte list \<Rightarrow> OnionLink list \<Rightarrow> py_error + OnionLink list" where
  "try_decodings [] content links = Inr links"
| "try_decodings (enc # encs) content links =
     (case decode enc content of
        None \<Rightarrow> try_decodings encs content links
      | Some text \<Rightarrow> links_of_lines (readlines text) links)"

definition unique_links :: "OnionLink list \<Rightarrow> OnionLink list" where
  "unique_links links = dict_values (fold (\<lambda>link d. dict_set d (link_url link) link) links [])"

definition extract_onion_links :: "byte list option \<Rightarrow> py_error + OnionLink list" where
  "extract_onion_links file =
     (case file of
        None \<Rightarrow> Inl FileNotFoundError
      | Some content \<Rightarrow> map_sum id unique_links (try_decodings try_encodings content []))"

text \<open>
  The rows that the loop over the DictReader sees, and the links it retains from them
  in file order, named for the statements about \<open>_extract_onion_links\<close>.
\<close>

definition ascii_bytes :: "string \<Rightarrow> byte list" where
  "ascii_bytes s = map of_char s"

fun first_decoding :: "encoding list \<Rightarrow> byte list \<Rightarrow> pystr option" where
  "first_decoding [] content = None"
| "first_decoding (enc # encs) content =
     (case decode enc content of None \<Rightarrow> first_decoding encs content | Some text \<Rightarrow> Some text)"

definition reader_lines :: "pystr list \<Rightarrow> pystr list" where
  "reader_lines lines =
     (case lines of
        [] \<Rightarrow> []
      | first_line # rest \<Rightarrow>
          if header_missing first_line then fallback_header # lines else lines)"

definition dict_reader_rows :: "byte list \<Rightarrow> pystr list \<times> pystr list list" where
  "dict_reader_rows content =
     (case first_decoding try_encodings content of
        None \<Rightarrow> ([], [])
      | Some text \<Rightarrow>
          (case fst (csv_reader (reader_lines (readlines text))) of
             [] \<Rightarrow> ([], [])
           | fieldnames # rows \<Rightarrow> (fieldnames, filter (\<lambda>row. row \<noteq> []) rows)))"

definition retained :: "pystr list \<Rightarrow> pystr list \<Rightarrow> OnionLink list" where
  "retained fieldnames row =
     (case onion_link_of_row (dict_row fieldnames row) of Inr (Some link) \<Rightarrow> [link] | _ \<Rightarrow> [])"

definition retained_links :: "byte list \<Rightarrow> OnionLink list" where
  "retained_links content =
     (case dict_reader_rows content of (fieldnames, rows) \<Rightarrow> concat (map (retained fieldnames) rows))"

definition url_index :: "OnionLink list \<Rightarrow> (pystr, OnionLink) dict" where
  "url_index links = fold (\<lambda>link d. dict_set d (link_url link) link) links []"

definition canonical_header :: "byte list" where
  "canonical_header = ascii_bytes ''engine,name,link\<newline>''"

section \<open>CrawlerService._limit_results_per_engine\<close>

text \<open>
  \<open>group_by_engine\<close> is the loop over the rows of the reader, \<open>limit_groups\<close> the loop
  over \<open>engine_results.items()\<close>, \<open>slice_to\<close> the slice \<open>results[:per_engine_limit]\<close>
  (a negative bound counts from the end), \<open>limit_rows\<close> the two loops on the rows of one
  clean read. The file is decoded as a whole: a decoding error surfaces before the reader
  has delivered a row, as it does for a file that fits one read of the text layer. Any
  other exception makes the function return the path it was given. The writer quotes a
  field that holds a delimiter, a quote or a line break, and ends rows with \<open>\r\n\<close>.
\<close>

type_synonym files = "pystr \<rightharpoonup> byte list"

fun group_by_engine ::
  "pystr list list \<Rightarrow> (pystr, pystr list list) dict \<Rightarrow> (pystr, pystr list list) dict" where
  "group_by_engine [] engine_results = engine_results"
| "group_by_engine (row # rows) engine_results =
     (if length row \<ge> 3 then
        (let engine = row ! 0;
             results = (case dict_get engine_results engine of None \<Rightarrow> [] | Some rs \<Rightarrow> rs)
         in group_by_engine rows (dict_set engine_results engine (results @ [row])))
      else group_by_engine rows engine_results)"

definition slice_to :: "'a list \<Rightarrow> int \<Rightarrow> 'a list" where
  "slice_to xs k = (if k \<ge> 0 then take (nat k) xs else take (nat (int (length xs) + k)) xs)"

fun limit_groups ::
  "(pystr, pystr list list) dict \<Rightarrow> int \<Rightarrow> pystr list list \<Rightarrow> pystr list list" where
  "limit_groups [] per_engine_limit limited_results = limited_results"
| "limit_groups ((engine, results) # rest) per_engine_limit limited_results =
     (let limited = slice_to results per_engine_limit
      in limit_groups rest per_engine_limit (limited_results @ limited))"

definition limit_rows :: "pystr list list \<Rightarrow> int \<Rightarrow> pystr list list" where
  "limit_rows rows per_engine_limit = limit_groups (group_by_engine rows []) per_engine_limit []"


fun read_engine_results ::
  "encoding list \<Rightarrow> byte list \<Rightarrow> (pystr, pystr list list) dict
     \<Rightarrow> py_error + (pystr, pystr list list) dict" where
  "read_engine_results [] content engine_results = Inr engine_results"
| "read_engine_results (enc # encs) content engine_results =
     (case decode enc content of
        None \<Rightarrow> read_engine_results encs content engine_results
      | Some text \<Rightarrow>
          (case csv_reader (readlines text) of
             (rows, None) \<Rightarrow> Inr (group_by_engine rows engine_results)
           | (rows, Some e) \<Rightarrow> Inl e))"

definition needs_quotes :: "pystr \<Rightarrow> bool" where
  "needs_quotes f = list_ex (\<lambda>c. c = 44 \<or> c = 34 \<or> c = 13 \<or> c = 10) f"

definition csv_field :: "pystr \<Rightarrow> pystr" where
  "csv_field f =
     (if needs_quotes f then [34] @ concat (map (\<lambda>c. if c = 34 then [34, 34] else [c]) f) @ [34]
      else f)"

fun join :: "'a list \<Rightarrow> 'a list list \<Rightarrow> 'a list" where
  "join sep [] = []"
| "join sep [x] = x"
| "join sep (x # y # ys) = x @ sep @ join sep (y # ys)"

definition csv_row :: "pystr list \<Rightarrow> pystr" where
  "csv_row row = (if row = [[]] then [34, 34] else join [44] (map csv_field row)) @ [13, 10]"

fun write_rows :: "pystr list list \<Rightarrow> byte list \<Rightarrow> byte list \<times> bool" where
  "write_rows [] written = (written, True)"
| "write_rows (row # rows) written =
     (case encode_utf8 (csv_row row) of
        None \<Rightarrow> (written, False)
      | Some bs \<Rightarrow> write_rows rows (written @ bs))"

definition limit_results_per_engine :: "files \<Rightarrow> pystr \<Rightarrow> int \<Rightarrow> files \<times> pystr" where
  "limit_results_per_engine fs csv_file per_engine_limit =
     (case fs csv_file of
        None \<Rightarrow> (fs, csv_file)
      | Some content \<Rightarrow>
          (case read_engine_results try_encodings content [] of
             Inl e \<Rightarrow> (fs, csv_file)
           | Inr engine_results \<Rightarrow>
               (let limited_results = limit_groups engine_results per_engine_limit [];
                    limited_file = str_replace csv_file (ustr ''.csv'') (ustr ''_limited.csv'')
                in case write_rows limited_results [] of
                     (written, True) \<Rightarrow> (fs(limited_file \<mapsto> written), limited_file)
                   | (written, False) \<Rightarrow> (fs(limited_file \<mapsto> written), csv_file))))"

section \<open>CrawlerService._run_onionsearch and CrawlerService._execute_crawl\<close>

text \<open>
  What lies outside the service is a \<open>World\<close>: \<open>subprocess_run\<close> is the effect of the
  discovery tool on the files, given its argument list (\<open>Inl\<close> when it cannot be
  started); \<open>crawl_page i url\<close> is the outcome of \<open>_crawl_page\<close> for the \<open>i\<close>-th link,
  \<open>None\<close> for any failure of the fetch, which \<open>_crawl_page\<close> catches itself (the page
  files it writes are never read back and are not tracked); \<open>clock\<close> gives the readings of
  \<open>datetime.now()\<close>. \<open>time.sleep\<close> raises \<open>ValueError\<close> for a negative argument.

  \<open>crawl_link\<close> is one iteration of the fetch loop and \<open>execute_crawl\<close> the whole
  function; both list the successive states of the job object, one per assignment.
  \<open>error_message\<close> holds the exception whose \<open>str\<close> the source stores.
\<close>

record World =
  subprocess_run :: "pystr list \<Rightarrow> files \<Rightarrow> py_error + files"
  crawl_page :: "nat \<Rightarrow> pystr \<Rightarrow> CrawledPage option"
  clock :: "nat \<Rightarrow> datetime"

definition run_onionsearch ::
  "World \<Rightarrow> Settings \<Rightarrow> files \<Rightarrow> pystr \<Rightarrow> int \<Rightarrow> files \<times> (py_error + pystr)" where
  "run_onionsearch w cfg fs query limit =
     (let safe_query = str_replace query (ustr '' '') (ustr ''_'');
          output_file = OUTPUT_DIR cfg @ ustr ''/onionsearch_'' @ safe_query @ ustr ''.csv'';
          per_engine_limit = ONIONSEARCH_PER_ENGINE_LIMIT cfg
      in case subprocess_run w
                [ustr ''onionsearch'', query,
                 ustr ''--proxy'', TOR_PROXY_HOST cfg @ ustr '':'' @ str_int (TOR_PROXY_PORT cfg),
                 ustr ''--output'', output_file,
                 ustr ''--limit'', str_int per_engine_limit] fs of
           Inl e \<Rightarrow> (fs, Inl e)
         | Inr fs1 \<Rightarrow>
             (case limit_results_per_engine fs1 output_file per_engine_limit of
                (fs2, limited_output_file) \<Rightarrow> (fs2, Inr limited_output_file)))"

definition time_sleep :: "real \<Rightarrow> py_error + unit" where
  "time_sleep secs = (if secs < 0 then Inl ValueError else Inr ())"

definition crawl_link :: "World \<Rightarrow> Settings \<Rightarrow> nat \<Rightarrow> OnionLink \<Rightarrow> CrawlJob \<Rightarrow> CrawlJob list" where
  "crawl_link w cfg i link job =
     (let counted =
            (case crawl_page w i (link_url link) of
               Some page \<Rightarrow>
                 (let j1 = job\<lparr>pages := pages job @ [page]\<rparr>
                  in [j1, j1\<lparr>crawled_links := crawled_links j1 + 1\<rparr>])
             | None \<Rightarrow> [job\<lparr>failed_links := failed_links job + 1\<rparr>]);
          j2 = (last counted)\<lparr>updated_at := clock w (Suc i)\<rparr>
      in case time_sleep (CRAWL_DELAY cfg) of
           Inr u \<Rightarrow> counted @ [j2]
         | Inl e \<Rightarrow> counted @ [j2, j2\<lparr>failed_links := failed_links j2 + 1\<rparr>])"

fun crawl_loop :: "World \<Rightarrow> Settings \<Rightarrow> nat \<Rightarrow> OnionLink list \<Rightarrow> CrawlJob \<Rightarrow> CrawlJob list" where
  "crawl_loop w cfg i [] job = []"
| "crawl_loop w cfg i (link # links) job =
     (let states = crawl_link w cfg i link job
      in states @ crawl_loop w cfg (Suc i) links (last states))"

record crawl_run =
  job_states :: "CrawlJob list"
  files_after :: files
  links_crawled :: "OnionLink list"
  ai_analysis :: "(pystr \<times> CrawledPage list) option"

definition fail_job :: "CrawlJob \<Rightarrow> py_error \<Rightarrow> datetime \<Rightarrow> CrawlJob list" where
  "fail_job job e now =
     (let j1 = job\<lparr>job_status := FAILED\<rparr>;
          j2 = j1\<lparr>error_message := Some e\<rparr>
      in [j1, j2, j2\<lparr>updated_at := now\<rparr>])"

definition execute_crawl ::
  "World \<Rightarrow> Settings \<Rightarrow> files \<Rightarrow> CrawlerService \<Rightarrow> pystr \<Rightarrow> pystr \<Rightarrow> int \<Rightarrow> py_error + crawl_run" where
  "execute_crawl w cfg fs svc jid query limit =
     (case dict_get (active_jobs svc) jid of
        None \<Rightarrow> Inl KeyError
      | Some job \<Rightarrow>
          (let j1 = job\<lparr>job_status := IN_PROGRESS\<rparr>;
               j2 = j1\<lparr>updated_at := clock w 0\<rparr>
           in case run_onionsearch w cfg fs query limit of
                (fs1, Inl e) \<Rightarrow>
                  Inr \<lparr> job_states = [j1, j2] @ fail_job j2 e (clock w 1), files_after = fs1,
                        links_crawled = [], ai_analysis = None \<rparr>
              | (fs1, Inr csv_file) \<Rightarrow>
                  (case extract_onion_links (fs1 csv_file) of
                     Inl e \<Rightarrow>
                       Inr \<lparr> job_states = [j1, j2] @ fail_job j2 e (clock w 1), files_after = fs1,
                             links_crawled = [], ai_analysis = None \<rparr>
                   | Inr all_onion_links \<Rightarrow>
                       (let j3 = j2\<lparr>total_links := int (length all_onion_links)\<rparr>;
                            links_to_crawl = all_onion_links;
                            loop = crawl_loop w cfg 0 links_to_crawl j3;
                            j4 = (last (j3 # loop))\<lparr>job_status := COMPLETED\<rparr>;
                            j5 = j4\<lparr>updated_at := clock w (Suc (length links_to_crawl))\<rparr>
                        in Inr \<lparr> job_states = [j1, j2, j3] @ loop @ [j4, j5], files_after = fs1,
                                 links_crawled = links_to_crawl,
                                 ai_analysis = (if pages j5 \<noteq> [] then Some (jid, pages j5) else None) \<rparr>))))"

definition execute_crawl_background ::
  "World \<Rightarrow> Settings \<Rightarrow> files \<Rightarrow> CrawlerService \<Rightarrow> crawl_task \<Rightarrow> crawl_run option" where
  "execute_crawl_background w cfg fs svc task =
     (case execute_crawl w cfg fs svc (task_job_id task) (task_query task) (task_limit task) of
        Inl e \<Rightarrow> None
      | Inr run \<Rightarrow> Some run)"

definition counted :: "CrawlJob \<Rightarrow> int" where
  "counted job = crawled_links job + failed_links job"

text \<open>
  Submitting a query and running the task that \<open>start_crawl\<close> scheduled, if it scheduled
  one, in a given world.
\<close>

definition submit_and_run ::
  "World \<Rightarrow> Settings \<Rightarrow> files \<Rightarrow> CrawlerService \<Rightarrow> pystr \<Rightarrow> int option \<Rightarrow> pystr \<Rightarrow> datetime \<Rightarrow> datetime
     \<Rightarrow> pystr \<times> CrawlerService \<times> crawl_run option" where
  "submit_and_run w cfg fs svc query limit uuid4 now1 now2 =
     (case start_crawl cfg svc query limit uuid4 now1 now2 of
        (jid, svc', task) \<Rightarrow>
          (jid, svc',
           case task of
             None \<Rightarrow> None
           | Some t \<Rightarrow> execute_crawl_background w cfg fs svc' t))"

text \<open>
  A world for concrete runs: the discovery tool writes two rows of one engine to the file
  named after \<open>--output\<close>, the first fetch succeeds and every later one fails.
\<close>

definition example_world :: World where
  "example_world =
     \<lparr> subprocess_run = (\<lambda>args fs. Inr (fs(args ! 5 \<mapsto>
          ascii_bytes ''tor66,A,http://a.onion\<newline>tor66,B,http://b.onion\<newline>''))),
       crawl_page = (\<lambda>i u. if i = 0
          then Some \<lparr> page_url = u, page_title = None, text_content = [], images = [],
                      crawl_timestamp = 0, file_path = None, page_status = ustr ''crawled'' \<rparr>
          else None),
       clock = (\<lambda>n. real n) \<rparr>"

section \<open>app/api/v1/endpoints/crawler.py: get_analysis_results_for_job\<close>

text \<open>
  The reports directory is the list of its files in the order of \<open>os.listdir\<close>, \<open>None\<close>
  when it does not exist. A file has a name, a creation time and, when it parses, the
  list under its key \<open>analyses\<close>; the records are those that \<open>save_analysis_report\<close>
  writes. \<open>report_filename\<close> is the name that \<open>save_analysis_report\<close> gives a report.
  \<open>replace_existing\<close> is the inner loop with its \<open>break\<close>, \<open>add_analysis\<close> the body of
  the loop over the records, \<open>add_file\<close> the body of the loop over the files, where a
  file that cannot be read is skipped. The listing and the creation times are those of
  one snapshot of the directory.
\<close>

datatype RiskLevel = LOW | MEDIUM | HIGH | CRITICAL

record RiskAssessment =
  score :: int
  level :: RiskLevel
  category :: pystr
  details :: "pystr option"

record PIIData =
  names :: "pystr list"
  emails :: "pystr list"
  websites :: "pystr list"
  contact_numbers :: "pystr list"

record AIAnalysis =
  title :: pystr
  url :: pystr
  summary :: pystr
  risk_assessment :: RiskAssessment
  analysis_keywords :: "pystr list"
  pii :: PIIData
  action_plan :: pystr
  analysis_timestamp :: pystr

record report_file =
  filename :: pystr
  getctime :: real
  analyses :: "AIAnalysis list option"

definition report_filename :: "pystr \<Rightarrow> pystr \<Rightarrow> pystr" where
  "report_filename crawl_id stamp =
     ustr ''analysis_report_'' @ crawl_id @ ustr ''_'' @ stamp @ ustr ''.json''"

definition is_job_report :: "pystr \<Rightarrow> pystr \<Rightarrow> bool" where
  "is_job_report jid name =
     (startswith name (ustr ''analysis_report_'' @ jid) \<and> endswith name (ustr ''.json''))"

definition is_analysis_report :: "pystr \<Rightarrow> bool" where
  "is_analysis_report name =
     (startswith name (ustr ''analysis_report_'') \<and> endswith name (ustr ''.json''))"

definition find_analysis_files :: "report_file list option \<Rightarrow> pystr \<Rightarrow> report_file list" where
  "find_analysis_files reports_dir jid =
     (case reports_dir of
        None \<Rightarrow> []
      | Some listdir \<Rightarrow>
          (let analysis_files = filter (\<lambda>f. is_job_report jid (filename f)) listdir
           in if analysis_files = []
              then filter (\<lambda>f. is_analysis_report (filename f)) listdir
              else analysis_files))"

definition newest_first :: "report_file list \<Rightarrow> report_file list" where
  "newest_first analysis_files = rev (sort_key getctime (rev analysis_files))"

definition better :: "AIAnalysis \<Rightarrow> AIAnalysis \<Rightarrow> bool" where
  "better analysis existing =
     (let current_score = score (risk_assessment analysis);
          existing_score = score (risk_assessment existing);
          current_summary_len = length (summary analysis);
          existing_summary_len = length (summary existing)
      in current_score > existing_score
         \<or> (current_score = existing_score \<and> current_summary_len > existing_summary_len))"

fun replace_existing :: "AIAnalysis list \<Rightarrow> AIAnalysis \<Rightarrow> AIAnalysis list" where
  "replace_existing [] analysis = []"
| "replace_existing (existing # rest) analysis =
     (if url existing = url analysis
      then (if better analysis existing then analysis # rest else existing # rest)
      else existing # replace_existing rest analysis)"

definition add_analysis ::
  "AIAnalysis list \<times> pystr set \<Rightarrow> AIAnalysis \<Rightarrow> AIAnalysis list \<times> pystr set" where
  "add_analysis acc analysis =
     (case acc of (all_analyses, seen_urls) \<Rightarrow>
        if url analysis \<noteq> [] then
          (if url analysis \<in> seen_urls
           then (replace_existing all_analyses analysis, seen_urls)
           else (all_analyses @ [analysis], insert (url analysis) seen_urls))
        else (all_analyses, seen_urls))"

definition add_file ::
  "AIAnalysis list \<times> pystr set \<Rightarrow> report_file \<Rightarrow> AIAnalysis list \<times> pystr set" where
  "add_file acc f =
     (case analyses f of
        None \<Rightarrow> acc
      | Some records \<Rightarrow> foldl add_analysis acc records)"

definition aggregate :: "report_file list \<Rightarrow> AIAnalysis list" where
  "aggregate analysis_files = fst (foldl add_file ([], {}) analysis_files)"

definition get_analysis_results_for_job ::
  "report_file list option \<Rightarrow> pystr \<Rightarrow> AIAnalysis list option" where
  "get_analysis_results_for_job reports_dir jid =
     (let analysis_files = find_analysis_files reports_dir jid
      in if analysis_files = [] then None
         else Some (aggregate (newest_first analysis_files)))"

section \<open>app/api/v1/endpoints/crawler.py: lookups\<close>

datatype http_error = HTTPException nat

record status_response =
  resp_job :: CrawlJob
  analysis_results :: "AIAnalysis list option"

record pages_response =
  resp_job_id :: pystr
  resp_pages :: "CrawledPage list"

text \<open>\<open>pages is None\<close> on the list that \<open>get_job_pages\<close> returns: a list is not \<open>None\<close>.\<close>

definition is_None :: "'a list \<Rightarrow> bool" where
  "is_None xs = False"

definition get_crawl_status ::
  "CrawlerService \<Rightarrow> report_file list option \<Rightarrow> pystr \<Rightarrow> http_error + status_response" where
  "get_crawl_status svc reports_dir jid =
     (case get_job_status svc jid of
        None \<Rightarrow> Inl (HTTPException 404)
      | Some job \<Rightarrow>
          Inr \<lparr> resp_job = job,
                analysis_results = get_analysis_results_for_job reports_dir jid \<rparr>)"

definition get_crawl_pages :: "CrawlerService \<Rightarrow> pystr \<Rightarrow> http_error + pages_response" where
  "get_crawl_pages svc jid =
     (let pages = get_job_pages svc jid
      in if is_None pages then Inl (HTTPException 404)
         else Inr \<lparr> resp_job_id = jid, resp_pages = pages \<rparr>)"

text \<open>
  The records of the artifacts in processing order, the state of the merge after a
  sequence of records, and the notions the statements about the merge use: the rank of a
  record within its url, sequences without ties, the unbeaten records of a sequence, and
  the order in which the artifacts of a job are processed.
\<close>

definition records_of :: "report_file \<Rightarrow> AIAnalysis list" where
  "records_of f = (case analyses f of None \<Rightarrow> [] | Some records \<Rightarrow> records)"

definition all_records :: "report_file list \<Rightarrow> AIAnalysis list" where
  "all_records analysis_files = concat (map records_of analysis_files)"

definition merge_records :: "AIAnalysis list \<Rightarrow> AIAnalysis list \<times> pystr set" where
  "merge_records records = foldl add_analysis ([], {}) records"

definition rank_key :: "AIAnalysis \<Rightarrow> pystr \<times> int \<times> nat" where
  "rank_key r = (url r, score (risk_assessment r), length (summary r))"

definition no_ties :: "AIAnalysis list \<Rightarrow> bool" where
  "no_ties records = distinct (map rank_key records)"

definition best_records :: "AIAnalysis list \<Rightarrow> AIAnalysis set" where
  "best_records records =
     {r \<in> set records. url r \<noteq> [] \<and> (\<forall>r'\<in>set records. url r' = url r \<longrightarrow> \<not> better r' r)}"

definition processing_order :: "report_file list option \<Rightarrow> pystr \<Rightarrow> report_file list" where
  "processing_order reports_dir jid = newest_first (find_analysis_files reports_dir jid)"

text \<open>Records, artifacts and a reports directory for concrete runs.\<close>

definition example_analysis :: "pystr \<Rightarrow> int \<Rightarrow> pystr \<Rightarrow> AIAnalysis" where
  "example_analysis u s sm =
     \<lparr> title = [], url = u, summary = sm,
       risk_assessment = \<lparr> score = s, level = LOW, category = [], details = None \<rparr>,
       analysis_keywords = [],
       pii = \<lparr> names = [], emails = [], websites = [], contact_numbers = [] \<rparr>,
       action_plan = [], analysis_timestamp = [] \<rparr>"

definition example_report :: "pystr \<Rightarrow> real \<Rightarrow> AIAnalysis list \<Rightarrow> report_file" where
  "example_report name t records = \<lparr> filename = name, getctime = t, analyses = Some records \<rparr>"

definition example_reports_dir :: "report_file list" where
  "example_reports_dir =
     [example_report (ustr ''analysis_report_j1_20240101_000000.json'') 5
        [example_analysis (ustr ''a'') 40 (ustr ''short'')],
      example_report (ustr ''analysis_report_j2_20240102_000000.json'') 9
        [example_analysis (ustr ''b'') 70 (ustr ''other job'')],
      example_report (ustr ''notes.txt'') 10 [],
      example_report (ustr ''analysis_report_j1_20240103_000000.json'') 7
        [example_analysis (ustr ''a'') 70 (ustr ''x'')]]"

section \<open>Properties of the registry\<close>

lemma find_existing_Some:
  "find_existing js q = Some j \<Longrightarrow> j \<in> set js \<and> job_query j = q \<and> is_active j"
  by (induction js) (auto simp: is_active_def split: if_splits)

lemma find_existing_None:
  "find_existing js q = None \<longleftrightarrow> (\<forall>j\<in>set js. \<not> (job_query j = q \<and> is_active j))"
  by (induction js) (auto simp: is_active_def)

lemma keyed_by_id_entry:
  "keyed_by_id d \<Longrightarrow> (k, j) \<in> set d \<Longrightarrow> job_id j = k"
  by (induction d) auto

lemma keyed_by_id_mem:
  "keyed_by_id d \<Longrightarrow> j \<in> set (dict_values d) \<Longrightarrow> job_id j \<in> set (dict_keys d)"
proof -
  assume k: "keyed_by_id d" and "j \<in> set (dict_values d)"
  then obtain k' where m: "(k', j) \<in> set d" by (auto simp: dict_values_def)
  with k have "job_id j = k'" by (rule keyed_by_id_entry)
  with m show ?thesis by (force simp: dict_keys_def)
qed

lemma dict_set_fresh: "k \<notin> set (dict_keys d) \<Longrightarrow> dict_set d k v = d @ [(k, v)]"
  by (induction d) (auto simp: dict_keys_def)

lemma dict_get_fresh: "k \<notin> set (dict_keys d) \<Longrightarrow> dict_get d k = None"
  by (induction d) (auto simp: dict_keys_def)

lemma dict_get_append_fresh: "k \<notin> set (dict_keys d) \<Longrightarrow> dict_get (d @ [(k, v)]) k = Some v"
  by (induction d) (auto simp: dict_keys_def)

lemma mutate_job_keys: "dict_keys (mutate_job d k f) = dict_keys d"
  by (induction d) (auto simp: dict_keys_def)

lemma find_existing_append:
  "find_existing (js @ [j]) q =
     (case find_existing js q of Some e \<Rightarrow> Some e
      | None \<Rightarrow> if job_query j = q \<and> is_active j then Some j else None)"
  by (induction js) (auto simp: is_active_def)

lemma one_active_append:
  "one_active_per_query (js @ [j]) \<longleftrightarrow>
     one_active_per_query js \<and> (is_active j \<longrightarrow> find_existing js (job_query j) = None)"
  apply (induction js)
   apply (auto simp: find_existing_append is_active_def split: option.splits if_splits)
  done

lemma keyed_by_id_append:
  "keyed_by_id (d @ [(k, j)]) \<longleftrightarrow> keyed_by_id d \<and> job_id j = k \<and> k \<notin> set (dict_keys d)"
  by (induction d) (auto simp: dict_keys_def)

lemma mutate_active:
  "keyed_by_id d \<Longrightarrow> find_existing (dict_values d) q = Some j0 \<Longrightarrow> st \<in> set [PENDING, IN_PROGRESS] \<Longrightarrow>
   find_existing (dict_values (mutate_job d (job_id j0) (\<lambda>job. job\<lparr>job_status := st\<rparr>))) q
     = Some (j0\<lparr>job_status := st\<rparr>)"
proof (induction d)
  case Nil
  then show ?case by (simp add: dict_values_def)
next
  case (Cons p d)
  obtain k j where p: "p = (k, j)" by (cases p)
  show ?case
  proof (cases "job_query j = q \<and> job_status j \<in> set [PENDING, IN_PROGRESS]")
    case True
    with Cons.prems p show ?thesis by (auto simp: dict_values_def)
  next
    case False
    with Cons.prems p have f: "find_existing (dict_values d) q = Some j0"
      by (auto simp: dict_values_def)
    then have "j0 \<in> set (dict_values d)" using find_existing_Some by blast
    with Cons.prems p have "job_id j0 \<in> set (dict_keys d)" using keyed_by_id_mem by auto
    with Cons.prems p have ne: "k \<noteq> job_id j0" by auto
    from Cons.prems p have kd: "keyed_by_id d" by simp
    from Cons.IH[OF kd f Cons.prems(3)] False ne p show ?thesis
      by (auto simp: dict_values_def)
  qed
qed

lemma mutate_terminal:
  "keyed_by_id d \<Longrightarrow> one_active_per_query (dict_values d) \<Longrightarrow>
   find_existing (dict_values d) q = Some j0 \<Longrightarrow> st \<in> set [COMPLETED, FAILED] \<Longrightarrow>
   find_existing (dict_values (mutate_job d (job_id j0) (\<lambda>job. job\<lparr>job_status := st\<rparr>))) q = None"
proof (induction d)
  case Nil
  then show ?case by (simp add: dict_values_def)
next
  case (Cons p d)
  obtain k j where p: "p = (k, j)" by (cases p)
  show ?case
  proof (cases "job_query j = q \<and> job_status j \<in> set [PENDING, IN_PROGRESS]")
    case True
    with Cons.prems p have "j0 = j" "job_id j = k" "find_existing (dict_values d) q = None"
      by (auto simp: dict_values_def is_active_def)
    with True Cons.prems(4) p show ?thesis by (auto simp: dict_values_def)
  next
    case False
    with Cons.prems p have f: "find_existing (dict_values d) q = Some j0"
      by (auto simp: dict_values_def)
    then have "j0 \<in> set (dict_values d)" using find_existing_Some by blast
    with Cons.prems p have "job_id j0 \<in> set (dict_keys d)" using keyed_by_id_mem by auto
    with Cons.prems p have ne: "k \<noteq> job_id j0" by auto
    from Cons.prems p have kd: "keyed_by_id d" "one_active_per_query (dict_values d)"
      by (simp_all add: dict_values_def)
    from Cons.IH[OF kd f Cons.prems(4)] False ne p show ?thesis
      by (auto simp: dict_values_def)
  qed
qed


lemma start_crawl_registers:
  assumes fresh: "uuid4 \<notin> set (dict_keys (active_jobs svc))"
    and first: "start_crawl cfg svc q limit1 uuid4 t1 t2 = (r1, svc1, tk)"
  shows "\<exists>j0. find_existing (dict_values (active_jobs svc1)) q = Some j0 \<and> job_id j0 = r1"
    and "set (dict_keys (active_jobs svc)) \<subseteq> set (dict_keys (active_jobs svc1))"
    and "r1 \<in> set (dict_keys (active_jobs svc1)) \<or> \<not> keyed_by_id (active_jobs svc)"
    and "registry_ok svc \<Longrightarrow> registry_ok svc1"
proof -
  let ?js = "dict_values (active_jobs svc)"
  show "\<exists>j0. find_existing (dict_values (active_jobs svc1)) q = Some j0 \<and> job_id j0 = r1"
    using fresh first
    by (auto simp: start_crawl_def Let_def dict_set_fresh dict_values_def find_existing_append
        new_job_def is_active_def split: option.splits)
  show "set (dict_keys (active_jobs svc)) \<subseteq> set (dict_keys (active_jobs svc1))"
    using fresh first
    by (auto simp: start_crawl_def Let_def dict_set_fresh dict_keys_def split: option.splits)
  show "r1 \<in> set (dict_keys (active_jobs svc1)) \<or> \<not> keyed_by_id (active_jobs svc)"
  proof (cases "find_existing ?js q")
    case None
    with fresh first show ?thesis
      by (auto simp: start_crawl_def Let_def dict_set_fresh dict_keys_def)
  next
    case (Some j)
    then have "j \<in> set ?js" using find_existing_Some by blast
    with Some first show ?thesis
      using keyed_by_id_mem[of "active_jobs svc" j] by (auto simp: start_crawl_def)
  qed
  show "registry_ok svc1" if "registry_ok svc"
    using that fresh first
    by (auto simp: start_crawl_def Let_def dict_set_fresh registry_ok_def dict_values_def
        keyed_by_id_append one_active_append new_job_def split: option.splits)
qed

text \<open>
  Claim C1. \<open>start_crawl\<close> answers a query that has a registered job in status PENDING or
  IN_PROGRESS with the id of such a job and leaves the registry as it is, scheduling
  nothing; otherwise it appends a new job in status PENDING under the new id, returns
  that id and schedules its execution. On a registry built by \<open>start_crawl\<close>, a second
  submission of the query returns the same id while the job of the first is PENDING or
  IN_PROGRESS, and a new id, different from the first, once that job is COMPLETED or
  FAILED. The id drawn by \<open>uuid.uuid4()\<close> is taken to be unused.
\<close>

theorem start_crawl_dedup:
  assumes fresh: "uuid4 \<notin> set (dict_keys (active_jobs svc))"
    and first: "start_crawl cfg svc q limit1 uuid4 t1 t2 = (r1, svc1, tk)"
  shows "(if \<exists>j\<in>set (dict_values (active_jobs svc)). job_query j = q \<and> is_active j
          then svc1 = svc \<and> tk = None \<and>
               (\<exists>j\<in>set (dict_values (active_jobs svc)). job_id j = r1 \<and> job_query j = q \<and> is_active j)
          else r1 = uuid4 \<and> get_job_status svc uuid4 = None \<and>
               active_jobs svc1 = active_jobs svc @ [(uuid4, new_job uuid4 q t1 t2)] \<and>
               get_job_status svc1 uuid4 = Some (new_job uuid4 q t1 t2) \<and>
               job_status (new_job uuid4 q t1 t2) = PENDING \<and>
               job_query (new_job uuid4 q t1 t2) = q \<and>
               tk = Some \<lparr> task_job_id = uuid4, task_query = q,
                            task_limit = py_or limit1 (DEFAULT_CRAWL_LIMIT cfg) \<rparr>)
       \<and> (registry_ok svc \<longrightarrow>
            (\<forall>st\<in>set [PENDING, IN_PROGRESS].
               start_crawl cfg (set_job_status svc1 r1 st) q limit2 uuid4' t3 t4
                 = (r1, set_job_status svc1 r1 st, None)))
       \<and> (registry_ok svc \<longrightarrow> uuid4' \<notin> set (dict_keys (active_jobs svc1)) \<longrightarrow>
            (\<forall>st\<in>set [COMPLETED, FAILED].
               fst (start_crawl cfg (set_job_status svc1 r1 st) q limit2 uuid4' t3 t4) = uuid4'
               \<and> uuid4' \<noteq> r1 \<and> uuid4' \<notin> set (dict_keys (active_jobs svc))))"
proof (intro conjI impI ballI)
  let ?js = "dict_values (active_jobs svc)"
  show "if \<exists>j\<in>set ?js. job_query j = q \<and> is_active j
          then svc1 = svc \<and> tk = None \<and>
               (\<exists>j\<in>set ?js. job_id j = r1 \<and> job_query j = q \<and> is_active j)
          else r1 = uuid4 \<and> get_job_status svc uuid4 = None \<and>
               active_jobs svc1 = active_jobs svc @ [(uuid4, new_job uuid4 q t1 t2)] \<and>
               get_job_status svc1 uuid4 = Some (new_job uuid4 q t1 t2) \<and>
               job_status (new_job uuid4 q t1 t2) = PENDING \<and>
               job_query (new_job uuid4 q t1 t2) = q \<and>
               tk = Some \<lparr> task_job_id = uuid4, task_query = q,
                            task_limit = py_or limit1 (DEFAULT_CRAWL_LIMIT cfg) \<rparr>"
  proof (cases "find_existing ?js q")
    case None
    then have no: "\<not> (\<exists>j\<in>set ?js. job_query j = q \<and> is_active j)"
      by (simp add: find_existing_None)
    from None first fresh have
      "r1 = uuid4" "active_jobs svc1 = active_jobs svc @ [(uuid4, new_job uuid4 q t1 t2)]"
      "tk = Some \<lparr> task_job_id = uuid4, task_query = q,
                   task_limit = py_or limit1 (DEFAULT_CRAWL_LIMIT cfg) \<rparr>"
      by (auto simp: start_crawl_def Let_def dict_set_fresh)
    with no fresh show ?thesis
      by (simp add: get_job_status_def dict_get_fresh dict_get_append_fresh new_job_def)
  next
    case (Some j)
    then have j: "j \<in> set ?js" "job_query j = q" "is_active j"
      using find_existing_Some by blast+
    from Some first have "svc1 = svc" "tk = None" "r1 = job_id j"
      by (auto simp: start_crawl_def)
    with j show ?thesis by auto
  qed
next
  fix st assume ok: "registry_ok svc" and st: "st \<in> set [PENDING, IN_PROGRESS]"
  from start_crawl_registers[OF fresh first] ok obtain j0 where
    j0: "find_existing (dict_values (active_jobs svc1)) q = Some j0" "job_id j0 = r1"
    and ok1: "registry_ok svc1" by blast
  from ok1 have "keyed_by_id (active_jobs svc1)" by (simp add: registry_ok_def)
  from mutate_active[OF this j0(1) st] j0(2)
  show "start_crawl cfg (set_job_status svc1 r1 st) q limit2 uuid4' t3 t4
          = (r1, set_job_status svc1 r1 st, None)"
    by (simp add: start_crawl_def set_job_status_def)
next
  fix st assume ok: "registry_ok svc"
    and fresh': "uuid4' \<notin> set (dict_keys (active_jobs svc1))"
    and st: "st \<in> set [COMPLETED, FAILED]"
  from start_crawl_registers[OF fresh first] ok obtain j0 where
    j0: "find_existing (dict_values (active_jobs svc1)) q = Some j0" "job_id j0 = r1"
    and ok1: "registry_ok svc1"
    and sub: "set (dict_keys (active_jobs svc)) \<subseteq> set (dict_keys (active_jobs svc1))"
    and r1: "r1 \<in> set (dict_keys (active_jobs svc1)) \<or> \<not> keyed_by_id (active_jobs svc)"
    by blast
  from ok1 have k: "keyed_by_id (active_jobs svc1)"
    "one_active_per_query (dict_values (active_jobs svc1))" by (simp_all add: registry_ok_def)
  from mutate_terminal[OF k j0(1) st] j0(2)
  show "fst (start_crawl cfg (set_job_status svc1 r1 st) q limit2 uuid4' t3 t4) = uuid4'"
    by (simp add: start_crawl_def set_job_status_def Let_def)
  from r1 ok fresh' show "uuid4' \<noteq> r1" by (auto simp: registry_ok_def)
  from sub fresh' show "uuid4' \<notin> set (dict_keys (active_jobs svc))" by auto
qed

lemma registry_ok_empty: "registry_ok \<lparr> active_jobs = [] \<rparr>"
  by (simp add: registry_ok_def dict_values_def)

theorem start_crawl_dedup_witness:
  "ustr ''job-1'' \<notin> set (dict_keys (active_jobs \<lparr> active_jobs = [] \<rparr>))
   \<and> registry_ok \<lparr> active_jobs = [] \<rparr>
   \<and> start_crawl settings \<lparr> active_jobs = [] \<rparr> (ustr ''test'') (Some 3) (ustr ''job-1'') 0 0
       = (ustr ''job-1'',
          \<lparr> active_jobs = [(ustr ''job-1'', new_job (ustr ''job-1'') (ustr ''test'') 0 0)] \<rparr>,
          Some \<lparr> task_job_id = ustr ''job-1'', task_query = ustr ''test'', task_limit = 3 \<rparr>)
   \<and> fst (start_crawl settings
         (set_job_status
            \<lparr> active_jobs = [(ustr ''job-1'', new_job (ustr ''job-1'') (ustr ''test'') 0 0)] \<rparr>
            (ustr ''job-1'') IN_PROGRESS)
         (ustr ''test'') None (ustr ''job-2'') 1 1) = ustr ''job-1''
   \<and> fst (start_crawl settings
         (set_job_status
            \<lparr> active_jobs = [(ustr ''job-1'', new_job (ustr ''job-1'') (ustr ''test'') 0 0)] \<rparr>
            (ustr ''job-1'') COMPLETED)
         (ustr ''test'') None (ustr ''job-2'') 1 1) = ustr ''job-2''"
proof -
  let ?svc = "\<lparr> active_jobs = [] \<rparr>"
  let ?svc1 = "\<lparr> active_jobs = [(ustr ''job-1'', new_job (ustr ''job-1'') (ustr ''test'') 0 0)] \<rparr>"
  have fresh: "ustr ''job-1'' \<notin> set (dict_keys (active_jobs ?svc))"
    by (simp add: dict_keys_def)
  have first: "start_crawl settings ?svc (ustr ''test'') (Some 3) (ustr ''job-1'') 0 0
       = (ustr ''job-1'', ?svc1,
          Some \<lparr> task_job_id = ustr ''job-1'', task_query = ustr ''test'', task_limit = 3 \<rparr>)"
    by (simp add: start_crawl_def dict_values_def py_or_def Let_def)
  have ok: "registry_ok ?svc" by (simp add: registry_ok_def dict_values_def)
  have fresh2: "ustr ''job-2'' \<notin> set (dict_keys (active_jobs ?svc1))"
    by (simp add: dict_keys_def ustr_def)
  from start_crawl_dedup[OF fresh first, of None "ustr ''job-2''" 1 1] ok fresh2
  have "fst (start_crawl settings (set_job_status ?svc1 (ustr ''job-1'') IN_PROGRESS)
              (ustr ''test'') None (ustr ''job-2'') 1 1) = ustr ''job-1''"
    and "fst (start_crawl settings (set_job_status ?svc1 (ustr ''job-1'') COMPLETED)
              (ustr ''test'') None (ustr ''job-2'') 1 1) = ustr ''job-2''"
    by simp_all
  with fresh first ok show ?thesis by blast
qed

lemma get_crawl_pages_absent:
  "get_job_status svc jid = None \<Longrightarrow>
   get_crawl_status svc reports_dir jid = Inl (HTTPException 404) \<and>
   get_crawl_pages svc jid = Inr \<lparr> resp_job_id = jid, resp_pages = [] \<rparr>"
  by (simp add: get_job_status_def get_crawl_status_def get_crawl_pages_def get_job_pages_def
      is_None_def)

text \<open>
  Claim C9. The status lookup of an absent id is a defined absence (\<open>None\<close>, reported as
  404). The page lookup is not: \<open>get_job_pages\<close> answers an absent id with the empty list,
  the test \<open>pages is None\<close> of the endpoint never holds, and the response for an absent id
  is the response for a registered job without pages.
\<close>

theorem get_crawl_pages_absent_same_as_empty:
  "get_job_status \<lparr> active_jobs = [] \<rparr> (ustr ''no-such-job'') = None
   \<and> get_crawl_status \<lparr> active_jobs = [] \<rparr> None (ustr ''no-such-job'') = Inl (HTTPException 404)
   \<and> get_crawl_pages \<lparr> active_jobs = [] \<rparr> (ustr ''no-such-job'')
       = Inr \<lparr> resp_job_id = ustr ''no-such-job'', resp_pages = [] \<rparr>
   \<and> get_crawl_pages
         \<lparr> active_jobs = [(ustr ''no-such-job'', new_job (ustr ''no-such-job'') (ustr ''q'') 0 0)] \<rparr>
         (ustr ''no-such-job'')
       = Inr \<lparr> resp_job_id = ustr ''no-such-job'', resp_pages = [] \<rparr>"
  by (simp add: get_job_status_def get_crawl_status_def get_crawl_pages_def get_job_pages_def
      is_None_def new_job_def)

section \<open>Properties of the link extractor\<close>

lemma dict_get_set: "dict_get (dict_set d k v) k' = (if k' = k then Some v else dict_get d k')"
  by (induction d) auto

lemma dict_keys_dict_set:
  "dict_keys (dict_set d k v) = (if k \<in> set (dict_keys d) then dict_keys d else dict_keys d @ [k])"
  by (induction d k v rule: dict_set.induct) (simp_all add: dict_keys_def)

lemma dict_keys_set: "set (dict_keys (dict_set d k v)) = insert k (set (dict_keys d))"
  by (auto simp: dict_keys_dict_set)

lemma distinct_dict_set: "distinct (dict_keys d) \<Longrightarrow> distinct (dict_keys (dict_set d k v))"
  by (simp add: dict_keys_dict_set)

lemma dict_entries_set:
  "(k', v') \<in> set (dict_set d k v) \<Longrightarrow> (k', v') = (k, v) \<or> (k', v') \<in> set d"
  by (induction d) (auto split: if_splits)

lemma dict_get_filter:
  "distinct (dict_keys d) \<Longrightarrow>
   filter (\<lambda>p. fst p = k) d = (case dict_get d k of None \<Rightarrow> [] | Some v \<Rightarrow> [(k, v)])"
proof (induction d)
  case Nil
  then show ?case by simp
next
  case (Cons p d)
  obtain k' v' where p: "p = (k', v')" by (cases p)
  show ?case
  proof (cases "k' = k")
    case True
    with Cons.prems p have "k \<notin> fst ` set d" by (simp add: dict_keys_def)
    then have "filter (\<lambda>p. fst p = k) d = []" by (auto simp: filter_empty_conv)
    with True p show ?thesis by simp
  next
    case False
    with Cons p show ?thesis by (simp add: dict_keys_def)
  qed
qed

lemma url_index_snoc:
  "url_index (links @ [l]) = dict_set (url_index links) (link_url l) l"
  by (simp add: url_index_def)

lemma url_index_inv:
  "distinct (dict_keys (url_index links))
   \<and> (\<forall>p\<in>set (url_index links). link_url (snd p) = fst p)
   \<and> (\<forall>u. dict_get (url_index links) u =
         (if filter (\<lambda>x. link_url x = u) links = [] then None
          else Some (last (filter (\<lambda>x. link_url x = u) links))))"
proof (induction links rule: rev_induct)
  case Nil
  show ?case by (simp add: url_index_def dict_keys_def)
next
  case (snoc l links)
  let ?d = "url_index links"
  have d: "distinct (dict_keys (dict_set ?d (link_url l) l))"
    using snoc by (simp add: distinct_dict_set)
  have e: "\<forall>p\<in>set (dict_set ?d (link_url l) l). link_url (snd p) = fst p"
    using snoc dict_entries_set[of _ _ ?d "link_url l" l] by fastforce
  have g: "\<forall>u. dict_get (dict_set ?d (link_url l) l) u =
         (if filter (\<lambda>x. link_url x = u) (links @ [l]) = [] then None
          else Some (last (filter (\<lambda>x. link_url x = u) (links @ [l]))))"
    using snoc by (simp add: dict_get_set)
  from d e g show ?case unfolding url_index_snoc by blast
qed

lemma filter_values_by_key:
  "\<forall>p\<in>set d. link_url (snd p) = fst p \<Longrightarrow>
   filter (\<lambda>x. link_url x = u) (map snd d) = map snd (filter (\<lambda>p. fst p = u) d)"
  by (induction d) auto

lemma dict_get_None_iff: "dict_get d k = None \<longleftrightarrow> k \<notin> set (dict_keys d)"
  by (induction d k rule: dict_get.induct) (simp_all add: dict_keys_def)

lemma unique_links_last_wins:
  "distinct (map link_url (unique_links links))
   \<and> set (map link_url (unique_links links)) = set (map link_url links)
   \<and> (\<forall>u\<in>set (map link_url links).
        filter (\<lambda>x. link_url x = u) (unique_links links)
          = [last (filter (\<lambda>x. link_url x = u) links)])"
proof -
  let ?d = "url_index links"
  have ul: "unique_links links = map snd ?d"
    by (simp add: unique_links_def url_index_def dict_values_def)
  from url_index_inv[of links] have
    dist: "distinct (dict_keys ?d)" and
    key: "\<forall>p\<in>set ?d. link_url (snd p) = fst p" and
    get: "\<And>u. dict_get ?d u =
         (if filter (\<lambda>x. link_url x = u) links = [] then None
          else Some (last (filter (\<lambda>x. link_url x = u) links)))"
    by blast+
  from key have urls: "map link_url (map snd ?d) = dict_keys ?d"
    by (simp add: dict_keys_def)
  have filt: "filter (\<lambda>x. link_url x = u) (map snd ?d) = map snd (filter (\<lambda>p. fst p = u) ?d)" for u
    using key by (rule filter_values_by_key)
  have A: "distinct (map link_url (unique_links links))"
    using dist urls ul by simp
  have B: "set (map link_url (unique_links links)) = set (map link_url links)"
  proof -
    have "u \<in> set (dict_keys ?d) \<longleftrightarrow> u \<in> set (map link_url links)" for u
    proof -
      have "u \<in> set (dict_keys ?d) \<longleftrightarrow> dict_get ?d u \<noteq> None"
        by (simp add: dict_get_None_iff)
      also have "\<dots> \<longleftrightarrow> filter (\<lambda>x. link_url x = u) links \<noteq> []"
        by (simp add: get)
      also have "\<dots> \<longleftrightarrow> u \<in> set (map link_url links)"
        by (auto simp: filter_empty_conv)
      finally show ?thesis .
    qed
    with urls ul show ?thesis by auto
  qed
  have C: "filter (\<lambda>x. link_url x = u) (unique_links links)
          = [last (filter (\<lambda>x. link_url x = u) links)]" if "u \<in> set (map link_url links)" for u
  proof -
    from that have ne: "filter (\<lambda>x. link_url x = u) links \<noteq> []"
      by (auto simp: filter_empty_conv)
    with get[of u] dict_get_filter[OF dist, of u] filt[of u] ul show ?thesis by simp
  qed
  from A B C show ?thesis by blast
qed


lemma retained_marker:
  "l \<in> set (retained fieldnames row) \<Longrightarrow>
   row_get (dict_row fieldnames row) (ustr ''link'') [] = Some (link_url l)
   \<and> py_in (ustr ''.onion'') (link_url l)"
  by (auto simp: retained_def onion_link_of_row_def split: sum.splits option.splits if_splits)

lemma dict_reader_links_retained:
  "dict_reader_links fieldnames rows err links = Inr out \<Longrightarrow>
   out = links @ concat (map (retained fieldnames) (filter (\<lambda>row. row \<noteq> []) rows))"
proof (induction rows arbitrary: links)
  case Nil
  then show ?case by (simp split: option.splits)
next
  case (Cons row rows)
  show ?case
  proof (cases "row = []")
    case True
    with Cons show ?thesis by simp
  next
    case False
    show ?thesis
    proof (cases "onion_link_of_row (dict_row fieldnames row)")
      case (Inl e)
      with False Cons.prems show ?thesis by simp
    next
      case (Inr r)
      show ?thesis
      proof (cases r)
        case None
        with Inr False Cons.prems have "dict_reader_links fieldnames rows err links = Inr out"
          by simp
        from Cons.IH[OF this] None Inr False show ?thesis by (simp add: retained_def)
      next
        case (Some link)
        with Inr False Cons.prems
        have "dict_reader_links fieldnames rows err (links @ [link]) = Inr out" by simp
        from Cons.IH[OF this] Some Inr False show ?thesis by (simp add: retained_def)
      qed
    qed
  qed
qed

lemma try_decodings_first:
  "try_decodings encs content links =
     (case first_decoding encs content of
        None \<Rightarrow> Inr links
      | Some text \<Rightarrow> links_of_lines (readlines text) links)"
  by (induction encs) (auto split: option.splits)

lemma extract_retained:
  assumes "extract_onion_links (Some content) = Inr result"
  shows "result = unique_links (retained_links content)"
proof -
  from assms obtain links where
    td: "try_decodings try_encodings content [] = Inr links" and r: "result = unique_links links"
    by (cases "try_decodings try_encodings content []") (auto simp: extract_onion_links_def)
  show ?thesis
  proof (cases "first_decoding try_encodings content")
    case None
    with td have "links = []" by (simp add: try_decodings_first)
    with None r show ?thesis by (simp add: retained_links_def dict_reader_rows_def)
  next
    case (Some decoded)
    with td have ll: "links_of_lines (readlines decoded) [] = Inr links"
      by (simp add: try_decodings_first)
    obtain rows err where cr: "csv_reader (reader_lines (readlines decoded)) = (rows, err)"
      by (cases "csv_reader (reader_lines (readlines decoded))")
    show ?thesis
    proof (cases rows)
      case Nil
      with ll cr have "links = []"
        by (auto simp: links_of_lines_def reader_lines_def Let_def
            split: if_splits option.splits list.splits)
      with Nil cr Some r show ?thesis by (simp add: retained_links_def dict_reader_rows_def)
    next
      case (Cons fieldnames rest)
      with ll cr have "dict_reader_links fieldnames rest err [] = Inr links"
        by (auto simp: links_of_lines_def reader_lines_def Let_def split: if_splits list.splits)
      from dict_reader_links_retained[OF this] Cons cr Some r show ?thesis
        by (simp add: retained_links_def dict_reader_rows_def)
    qed
  qed
qed

text \<open>
  Claim C5. A row is retained only with a \<open>link\<close> field that contains \<open>.onion\<close>, which
  becomes the url of its link. When \<open>_extract_onion_links\<close> returns, its result is the
  list of the retained rows, in file order, made unique by url: every returned link is a
  retained row and carries the marker in its url, no url occurs twice, and for every url
  among the retained rows the result holds exactly one link with that url, the one of
  the last retained row with that url.
\<close>

theorem extract_last_wins:
  assumes "extract_onion_links (Some content) = Inr result"
  shows "result = unique_links (retained_links content)
     \<and> (\<forall>fieldnames row. \<forall>l\<in>set (retained fieldnames row).
          row_get (dict_row fieldnames row) (ustr ''link'') [] = Some (link_url l)
          \<and> py_in (ustr ''.onion'') (link_url l))
     \<and> (\<forall>l\<in>set (retained_links content). py_in (ustr ''.onion'') (link_url l))
     \<and> (\<forall>l\<in>set result. l \<in> set (retained_links content) \<and> py_in (ustr ''.onion'') (link_url l))
     \<and> distinct (map link_url result)
     \<and> (\<forall>u\<in>set (map link_url (retained_links content)).
          filter (\<lambda>l. link_url l = u) result
            = [last (filter (\<lambda>l. link_url l = u) (retained_links content))])"
proof -
  let ?links = "retained_links content"
  have r: "result = unique_links ?links" using assms by (rule extract_retained)
  have m: "\<forall>l\<in>set ?links. py_in (ustr ''.onion'') (link_url l)"
    using retained_marker by (auto simp: retained_links_def split: prod.splits)
  from unique_links_last_wins[of ?links] r have
    d: "distinct (map link_url result)" and
    s: "set (map link_url result) = set (map link_url ?links)" and
    lw: "\<forall>u\<in>set (map link_url ?links).
          filter (\<lambda>l. link_url l = u) result = [last (filter (\<lambda>l. link_url l = u) ?links)]"
    by simp_all
  have sub: "l \<in> set ?links" if "l \<in> set result" for l
  proof -
    from that s have u: "link_url l \<in> set (map link_url ?links)" by force
    then have ne: "filter (\<lambda>x. link_url x = link_url l) ?links \<noteq> []"
      by (auto simp: filter_empty_conv)
    from lw u have "filter (\<lambda>x. link_url x = link_url l) result
        = [last (filter (\<lambda>x. link_url x = link_url l) ?links)]" by blast
    moreover from that have "l \<in> set (filter (\<lambda>x. link_url x = link_url l) result)" by simp
    ultimately have "l = last (filter (\<lambda>x. link_url x = link_url l) ?links)" by simp
    with ne have "l \<in> set (filter (\<lambda>x. link_url x = link_url l) ?links)"
      using last_in_set by metis
    then show ?thesis by simp
  qed
  have row: "\<forall>fieldnames row. \<forall>l\<in>set (retained fieldnames row).
          row_get (dict_row fieldnames row) (ustr ''link'') [] = Some (link_url l)
          \<and> py_in (ustr ''.onion'') (link_url l)"
    using retained_marker by blast
  from r row m d lw sub show ?thesis by blast
qed

lemmas csv_defs = csv_reader_def parse_reset_def parse_process_char_def start_field_def
  end_of_record_def parse_save_field_def parse_add_char_def field_limit_def is_newline_def

lemmas extract_defs = extract_onion_links_def try_encodings_def links_of_lines_def
  header_missing_def fallback_header_def strip_def split_def isspace_def readlines_def
  onion_link_of_row_def dict_row_def row_get_def unique_links_def dict_values_def
  ascii_bytes_def ustr_def is_cont_def decode_cp1252_byte_def cp1252_high_def

lemma decode_utf8_ascii_append:
  "\<forall>b\<in>set a. b < 0x80 \<Longrightarrow> decode_utf8 (a @ bs) = map_option ((@) (map unat a)) (decode_utf8 bs)"
  by (induction a) (cases "decode_utf8 bs"; simp)+

lemma decode_cp1252_ascii_append:
  "\<forall>b\<in>set a. b < 0x80 \<Longrightarrow> decode_cp1252 (a @ bs) = map_option ((@) (map unat a)) (decode_cp1252 bs)"
  by (induction a) (cases "decode_cp1252 bs"; simp add: decode_cp1252_byte_def)+

lemma canonical_header_ascii: "\<forall>b\<in>set canonical_header. b < 0x80"
  by (simp add: canonical_header_def ascii_bytes_def)

lemma canonical_header_text: "map unat canonical_header = fallback_header"
  by (simp add: canonical_header_def ascii_bytes_def fallback_header_def ustr_def)

lemma decode_with_header:
  "decode enc (canonical_header @ bs) = map_option ((@) fallback_header) (decode enc bs)"
  using canonical_header_ascii
  by (cases enc) (simp_all add: decode_utf8_ascii_append decode_cp1252_ascii_append canonical_header_text)

lemma first_decoding_with_header:
  "first_decoding encs (canonical_header @ bs) = map_option ((@) fallback_header) (first_decoding encs bs)"
  by (induction encs) (auto simp: decode_with_header split: option.splits)

lemma universal_newlines_append:
  "13 \<notin> set a \<Longrightarrow> universal_newlines (a @ t) = a @ universal_newlines t"
  by (induction a) auto

lemma lines_from_append:
  "10 \<notin> set a \<Longrightarrow> lines_from cur (a @ 10 # t) = (cur @ a @ [10]) # lines_from [] t"
  by (induction a arbitrary: cur) auto

lemma readlines_with_header: "readlines (fallback_header @ t) = fallback_header # readlines t"
proof -
  have "universal_newlines (fallback_header @ t) = fallback_header @ universal_newlines t"
    by (rule universal_newlines_append) (simp add: fallback_header_def ustr_def)
  moreover have "lines_from [] (ustr ''engine,name,link'' @ 10 # universal_newlines t)
      = ([] @ ustr ''engine,name,link'' @ [10]) # lines_from [] (universal_newlines t)"
    by (rule lines_from_append) (simp add: ustr_def)
  ultimately show ?thesis by (simp add: readlines_def fallback_header_def)
qed

lemma header_present: "\<not> header_missing fallback_header"
  by (simp add: header_missing_def fallback_header_def strip_def split_def isspace_def ustr_def)

text \<open>
  Claim C6, as amended. If the artifact decodes, has a first line and the last
  comma-separated field of that line, stripped, contains \<open>.onion\<close> (the source's test for
  a missing header), then \<open>_extract_onion_links\<close> gives the same outcome for the artifact and for
  the artifact preceded by the header line \<open>engine,name,link\<close>.
\<close>

theorem header_synthesis_transparent:
  assumes "first_decoding try_encodings data = Some decoded"
    and "readlines decoded = first_line # rest"
    and "header_missing first_line"
  shows "extract_onion_links (Some (canonical_header @ data)) = extract_onion_links (Some data)"
proof -
  have "try_decodings try_encodings (canonical_header @ data) []
      = links_of_lines (fallback_header # readlines decoded) []"
    using assms(1)
    by (simp add: try_decodings_first first_decoding_with_header readlines_with_header)
  also have "\<dots> = links_of_lines (readlines decoded) []"
    using assms(2,3) by (simp add: links_of_lines_def header_present)
  also have "\<dots> = try_decodings try_encodings data []"
    using assms(1) by (simp add: try_decodings_first)
  finally show ?thesis by (simp add: extract_onion_links_def)
qed

text \<open>
  Claim C6 as stated fails for data rows whose first row is not an onion link: with the
  header the onion row is found, without it the first data row is read as the header, no
  column is called \<open>link\<close> and nothing is retained.
\<close>

theorem header_synthesis_counterexample:
  "extract_onion_links (Some (canonical_header @ ascii_bytes ''ahmia,Site,http://example.com\<newline>tor66,ExampleSite,http://abc.onion\<newline>''))
     = Inr [\<lparr> link_url = ustr ''http://abc.onion'', link_title = Some (ustr ''ExampleSite''),
              link_engine = Some (ustr ''tor66''), link_status = ustr ''discovered'' \<rparr>]
   \<and> extract_onion_links (Some (ascii_bytes ''ahmia,Site,http://example.com\<newline>tor66,ExampleSite,http://abc.onion\<newline>''))
     = Inr []"
  by (simp add: canonical_header_def extract_defs csv_defs)

theorem header_synthesis_transparent_witness:
  "first_decoding try_encodings (ascii_bytes ''tor66,ExampleSite,http://abc.onion\<newline>'')
     = Some (ustr ''tor66,ExampleSite,http://abc.onion\<newline>'')
   \<and> readlines (ustr ''tor66,ExampleSite,http://abc.onion\<newline>'')
       = [ustr ''tor66,ExampleSite,http://abc.onion\<newline>'']
   \<and> header_missing (ustr ''tor66,ExampleSite,http://abc.onion\<newline>'')
   \<and> extract_onion_links (Some (canonical_header @ ascii_bytes ''tor66,ExampleSite,http://abc.onion\<newline>''))
     = Inr [\<lparr> link_url = ustr ''http://abc.onion'', link_title = Some (ustr ''ExampleSite''),
              link_engine = Some (ustr ''tor66''), link_status = ustr ''discovered'' \<rparr>]
   \<and> extract_onion_links (Some (ascii_bytes ''tor66,ExampleSite,http://abc.onion\<newline>''))
     = Inr [\<lparr> link_url = ustr ''http://abc.onion'', link_title = Some (ustr ''ExampleSite''),
              link_engine = Some (ustr ''tor66''), link_status = ustr ''discovered'' \<rparr>]"
proof -
  let ?d = "ascii_bytes ''tor66,ExampleSite,http://abc.onion\<newline>''"
  let ?t = "ustr ''tor66,ExampleSite,http://abc.onion\<newline>''"
  have a: "first_decoding try_encodings ?d = Some ?t"
    by (simp add: try_encodings_def ascii_bytes_def ustr_def)
  have b: "readlines ?t = [?t]" by (simp add: readlines_def ustr_def)
  have c: "header_missing ?t"
    by (simp add: header_missing_def strip_def split_def isspace_def ustr_def)
  have e: "extract_onion_links (Some ?d)
     = Inr [\<lparr> link_url = ustr ''http://abc.onion'', link_title = Some (ustr ''ExampleSite''),
              link_engine = Some (ustr ''tor66''), link_status = ustr ''discovered'' \<rparr>]"
    by (simp add: extract_defs csv_defs)
  from header_synthesis_transparent[OF a b c] a b c e show ?thesis by simp
qed

text \<open>
  Claim C2 as stated fails: the one-byte artifact \<open>0x81\<close> is decoded by neither
  encoding, and \<open>_extract_onion_links\<close> returns the empty list.
\<close>

theorem undecodable_artifact_counterexample:
  "decode Utf8 [0x81] = None \<and> decode Windows1252 [0x81] = None
   \<and> extract_onion_links (Some [0x81]) = Inr []"
  by (simp add: extract_defs)

text \<open>
  Claim C2, as amended. For an artifact that none of the candidate encodings decodes,
  \<open>_extract_onion_links\<close> raises nothing and returns the empty list of links.
\<close>

theorem undecodable_artifact_empty:
  "\<forall>enc\<in>set try_encodings. decode enc content = None \<Longrightarrow>
   extract_onion_links (Some content) = Inr []"
  by (simp add: extract_onion_links_def try_encodings_def unique_links_def dict_values_def)

theorem undecodable_artifact_empty_witness:
  "decode Utf8 [0x41, 0x9D] = None \<and> decode Windows1252 [0x41, 0x9D] = None
   \<and> extract_onion_links (Some [0x41, 0x9D]) = Inr []"
proof -
  have "\<forall>enc\<in>set try_encodings. decode enc [0x41, 0x9D] = None"
    by (simp add: try_encodings_def decode_cp1252_byte_def cp1252_high_def)
  from undecodable_artifact_empty[OF this] this show ?thesis
    by (simp add: try_encodings_def)
qed

theorem extract_last_wins_witness:
  "extract_onion_links (Some (ascii_bytes ''engine,name,link\<newline>tor66,First,http://abc.onion\<newline>ahmia,Second,http://abc.onion\<newline>ahmia,Clear,http://x.com\<newline>''))
     = Inr [\<lparr> link_url = ustr ''http://abc.onion'', link_title = Some (ustr ''Second''),
              link_engine = Some (ustr ''ahmia''), link_status = ustr ''discovered'' \<rparr>]
   \<and> retained_links (ascii_bytes ''engine,name,link\<newline>tor66,First,http://abc.onion\<newline>ahmia,Second,http://abc.onion\<newline>ahmia,Clear,http://x.com\<newline>'')
     = [\<lparr> link_url = ustr ''http://abc.onion'', link_title = Some (ustr ''First''),
          link_engine = Some (ustr ''tor66''), link_status = ustr ''discovered'' \<rparr>,
        \<lparr> link_url = ustr ''http://abc.onion'', link_title = Some (ustr ''Second''),
          link_engine = Some (ustr ''ahmia''), link_status = ustr ''discovered'' \<rparr>]
   \<and> filter (\<lambda>l. link_url l = ustr ''http://abc.onion'')
         [\<lparr> link_url = ustr ''http://abc.onion'', link_title = Some (ustr ''Second''),
              link_engine = Some (ustr ''ahmia''), link_status = ustr ''discovered'' \<rparr>]
     = [last (retained_links (ascii_bytes ''engine,name,link\<newline>tor66,First,http://abc.onion\<newline>ahmia,Second,http://abc.onion\<newline>ahmia,Clear,http://x.com\<newline>''))]"
proof -
  let ?w = "ascii_bytes ''engine,name,link\<newline>tor66,First,http://abc.onion\<newline>ahmia,Second,http://abc.onion\<newline>ahmia,Clear,http://x.com\<newline>''"
  let ?l1 = "\<lparr> link_url = ustr ''http://abc.onion'', link_title = Some (ustr ''First''),
          link_engine = Some (ustr ''tor66''), link_status = ustr ''discovered'' \<rparr>"
  let ?l2 = "\<lparr> link_url = ustr ''http://abc.onion'', link_title = Some (ustr ''Second''),
              link_engine = Some (ustr ''ahmia''), link_status = ustr ''discovered'' \<rparr>"
  have e: "extract_onion_links (Some ?w) = Inr [?l2]"
    by (simp add: extract_defs csv_defs)
  have r: "retained_links ?w = [?l1, ?l2]"
    by (simp add: retained_links_def dict_reader_rows_def reader_lines_def retained_def
        extract_defs csv_defs)
  from extract_last_wins[OF e]
  have "\<forall>u\<in>set (map link_url (retained_links ?w)).
          filter (\<lambda>l. link_url l = u) [?l2]
            = [last (filter (\<lambda>l. link_url l = u) (retained_links ?w))]" by blast
  then have "filter (\<lambda>l. link_url l = ustr ''http://abc.onion'') [?l2]
      = [last (filter (\<lambda>l. link_url l = ustr ''http://abc.onion'') (retained_links ?w))]"
    unfolding r by simp
  then have "filter (\<lambda>l. link_url l = ustr ''http://abc.onion'') [?l2] = [last (retained_links ?w)]"
    unfolding r by simp
  with e r show ?thesis by simp
qed

section \<open>Properties of the per-engine limiter\<close>















text \<open>
  On a file that decodes and parses, \<open>_limit_results_per_engine\<close> writes the limited
  rows of the file to the limited file.
\<close>

lemma read_engine_results_first:
  "read_engine_results encs content acc =
     (case first_decoding encs content of
        None \<Rightarrow> Inr acc
      | Some decoded \<Rightarrow>
          (case csv_reader (readlines decoded) of
             (rows, None) \<Rightarrow> Inr (group_by_engine rows acc)
           | (rows, Some e) \<Rightarrow> Inl e))"
  by (induction encs) (auto split: option.splits)

lemma limit_results_per_engine_clean_read:
  assumes "fs csv_file = Some content"
    and "first_decoding try_encodings content = Some decoded"
    and "csv_reader (readlines decoded) = (rows, None)"
  shows "limit_results_per_engine fs csv_file k =
     (let limited_file = str_replace csv_file (ustr ''.csv'') (ustr ''_limited.csv'')
      in case write_rows (limit_rows rows k) [] of
           (written, ok) \<Rightarrow>
             (fs(limited_file \<mapsto> written), if ok then limited_file else csv_file))"
  using assms
  by (auto simp: limit_results_per_engine_def read_engine_results_first limit_rows_def Let_def
      split: prod.splits bool.splits)

text \<open>
  A negative cap is a Python slice that counts from the end: it drops the last rows of
  every group.
\<close>

lemma limit_rows_negative_cap:
  "limit_rows [[ustr ''ahmia'', ustr ''a1'', ustr ''u1''], [ustr ''ahmia'', ustr ''a2'', ustr ''u2''],
               [ustr ''ahmia'', ustr ''a3'', ustr ''u3'']] (- 1)
     = [[ustr ''ahmia'', ustr ''a1'', ustr ''u1''], [ustr ''ahmia'', ustr ''a2'', ustr ''u2'']]"
  by (simp add: limit_rows_def slice_to_def ustr_def Let_def)

section \<open>Properties of the execution of a job\<close>






lemmas run_defs = execute_crawl_def run_onionsearch_def limit_results_per_engine_def
  crawl_link_def time_sleep_def fail_job_def settings_def example_world_def new_job_def
  str_int_def csv_row_def csv_field_def needs_quotes_def encode_utf8_char_def slice_to_def
  Let_def





text \<open>With a negative delay \<open>time.sleep\<close> raises inside the \<open>try\<close> of the loop body, after
  the counter of the iteration was incremented, and the handler counts the link again.\<close>

lemma crawl_link_negative_delay:
  "CRAWL_DELAY cfg < 0 \<Longrightarrow> crawl_page w i (link_url link) = None \<Longrightarrow>
   failed_links (last (crawl_link w cfg i link job)) = failed_links job + 2"
  by (simp add: crawl_link_def time_sleep_def Let_def)

text \<open>
  Claim C10. The \<open>limit\<close> argument does not reach the crawl: discovery, the whole
  execution (the links fetched, every state of the job, the files written, the analysis
  triggered) and the outcome of submitting and then running the scheduled task are the
  same for any two values of the argument, given or not. The per-engine cap is
  \<open>ONIONSEARCH_PER_ENGINE_LIMIT\<close> of the settings, and the links that the loop of a
  completed job runs over are all the links extracted from the discovery artifact.
\<close>

theorem limit_has_no_effect:
  "run_onionsearch w cfg fs query l1 = run_onionsearch w cfg fs query l2
   \<and> execute_crawl w cfg fs svc jid query l1 = execute_crawl w cfg fs svc jid query l2
   \<and> submit_and_run w cfg fs svc query limit1 uuid4 now1 now2
       = submit_and_run w cfg fs svc query limit2 uuid4 now1 now2
   \<and> (execute_crawl w cfg fs svc jid query l1 = Inr run
        \<and> job_status (last (job_states run)) = COMPLETED \<longrightarrow>
        (\<exists>fs1 csv_file.
           run_onionsearch w cfg fs query l2 = (fs1, Inr csv_file)
           \<and> extract_onion_links (fs1 csv_file) = Inr (links_crawled run)))"
proof -
  have a: "run_onionsearch w cfg fs query l = run_onionsearch w cfg fs query l'" for l l'
    by (simp add: run_onionsearch_def)
  have b: "execute_crawl w cfg fs s j query l = execute_crawl w cfg fs s j query l'" for l l' s j
    unfolding execute_crawl_def a[of l l'] by (rule refl)
  have c: "submit_and_run w cfg fs svc query limit1 uuid4 now1 now2
       = submit_and_run w cfg fs svc query limit2 uuid4 now1 now2"
    by (auto simp: submit_and_run_def start_crawl_def execute_crawl_background_def Let_def
        b[of _ _ "py_or limit1 (DEFAULT_CRAWL_LIMIT cfg)" "py_or limit2 (DEFAULT_CRAWL_LIMIT cfg)"]
        split: option.splits)
  have d: "\<exists>fs1 csv_file.
           run_onionsearch w cfg fs query l2 = (fs1, Inr csv_file)
           \<and> extract_onion_links (fs1 csv_file) = Inr (links_crawled run)"
    if "execute_crawl w cfg fs svc jid query l1 = Inr run"
      and "job_status (last (job_states run)) = COMPLETED"
  proof -
    from that(1) have r: "execute_crawl w cfg fs svc jid query l2 = Inr run" by (simp add: b[of _ _ l2 l1])
    obtain fs1 found where ro: "run_onionsearch w cfg fs query l2 = (fs1, found)"
      by (cases "run_onionsearch w cfg fs query l2")
    from r ro that(2) show ?thesis
      by (auto simp: execute_crawl_def fail_job_def Let_def split: option.splits sum.splits)
  qed
  from a b c d show ?thesis by blast
qed

theorem limit_has_no_effect_witness:
  "\<exists>run. snd (snd (submit_and_run example_world settings Map.empty \<lparr> active_jobs = [] \<rparr>
                      (ustr ''test'') (Some 1) (ustr ''job-1'') 0 0)) = Some run
       \<and> snd (snd (submit_and_run example_world settings Map.empty \<lparr> active_jobs = [] \<rparr>
                      (ustr ''test'') (Some 100) (ustr ''job-1'') 0 0)) = Some run
       \<and> length (links_crawled run) = 2"
proof -
  have "\<exists>run. snd (snd (submit_and_run example_world settings Map.empty \<lparr> active_jobs = [] \<rparr>
                      (ustr ''test'') (Some 1) (ustr ''job-1'') 0 0)) = Some run
       \<and> length (links_crawled run) = 2"
    by (simp add: submit_and_run_def start_crawl_def execute_crawl_background_def py_or_def
        dict_values_def run_defs extract_defs csv_defs)
  with limit_has_no_effect[of example_world settings Map.empty "ustr ''test''" _ _ "\<lparr> active_jobs = [] \<rparr>" _
      "Some 1" "ustr ''job-1''" 0 0 "Some 100"]
  show ?thesis by auto
qed

section \<open>Properties of the analysis aggregator\<close>

lemma better_irrefl: "\<not> better a a"
  by (simp add: better_def)

lemma better_trans: "better a b \<Longrightarrow> better b c \<Longrightarrow> better a c"
  by (auto simp: better_def Let_def)

lemma not_better_both:
  "\<not> better a b \<Longrightarrow> \<not> better b a \<Longrightarrow>
   score (risk_assessment a) = score (risk_assessment b) \<and> length (summary a) = length (summary b)"
  by (auto simp: better_def Let_def)

lemma replace_existing_urls: "map url (replace_existing xs a) = map url xs"
  by (induction xs) auto

lemma replace_existing_at:
  "distinct (map url xs) \<Longrightarrow> i < length xs \<Longrightarrow> url (xs ! i) = url a \<Longrightarrow>
   replace_existing xs a = (if better a (xs ! i) then xs[i := a] else xs)"
proof (induction xs arbitrary: i)
  case Nil
  then show ?case by simp
next
  case (Cons x xs)
  show ?case
  proof (cases i)
    case 0
    with Cons.prems show ?thesis by simp
  next
    case (Suc n)
    with Cons.prems have n: "n < length xs" "url (xs ! n) = url a" by simp_all
    then have "url a \<in> set (map url xs)" by (metis length_map nth_map nth_mem)
    with Cons.prems have "url x \<noteq> url a" by auto
    moreover from Cons.prems have "distinct (map url xs)" by simp
    ultimately show ?thesis using Cons.IH[OF _ n] Suc by simp
  qed
qed

lemma foldl_add_file:
  "foldl add_file acc analysis_files = foldl add_analysis acc (all_records analysis_files)"
  by (induction analysis_files arbitrary: acc)
     (auto simp: add_file_def all_records_def records_of_def split: option.splits)

lemma aggregate_merge: "aggregate analysis_files = fst (merge_records (all_records analysis_files))"
  by (simp add: aggregate_def merge_records_def foldl_add_file)

lemma merge_records_snoc:
  "merge_records (rs @ [a]) = add_analysis (merge_records rs) a"
  by (simp add: merge_records_def)

lemma merge_inv:
  assumes "merge_records rs = (kept, seen)"
  shows "seen = url ` set kept \<and> distinct (map url kept)
     \<and> set kept \<subseteq> {r \<in> set rs. url r \<noteq> []}
     \<and> (\<forall>r\<in>set rs. url r \<noteq> [] \<longrightarrow> (\<exists>e\<in>set kept. url e = url r \<and> \<not> better r e))"
  using assms
proof (induction rs arbitrary: kept seen rule: rev_induct)
  case Nil
  then show ?case by (simp add: merge_records_def)
next
  case (snoc a rs)
  obtain kept0 seen0 where m0: "merge_records rs = (kept0, seen0)"
    by (cases "merge_records rs")
  from snoc.IH[OF m0] have
    s0: "seen0 = url ` set kept0" and d0: "distinct (map url kept0)"
    and sub0: "set kept0 \<subseteq> {r \<in> set rs. url r \<noteq> []}"
    and cov0: "\<forall>r\<in>set rs. url r \<noteq> [] \<longrightarrow> (\<exists>e\<in>set kept0. url e = url r \<and> \<not> better r e)"
    by blast+
  from snoc.prems m0 have step: "add_analysis (kept0, seen0) a = (kept, seen)"
    by (simp add: merge_records_snoc)
  show ?case
  proof (cases "url a = []")
    case True
    with step have "kept = kept0" "seen = seen0" by (simp_all add: add_analysis_def)
    with s0 d0 sub0 cov0 True show ?thesis by auto
  next
    case nonempty: False
    show ?thesis
    proof (cases "url a \<in> seen0")
      case False
      with step nonempty have k: "kept = kept0 @ [a]" "seen = insert (url a) seen0"
        by (simp_all add: add_analysis_def)
      have "\<exists>e\<in>set kept. url e = url r \<and> \<not> better r e" if "r \<in> set (rs @ [a])" "url r \<noteq> []" for r
      proof (cases "r = a")
        case True
        with k show ?thesis using better_irrefl by auto
      next
        case False
        with that cov0 k show ?thesis by auto
      qed
      with k s0 d0 sub0 False nonempty show ?thesis by auto
    next
      case True
      with s0 obtain i where i: "i < length kept0" "url (kept0 ! i) = url a"
        by (auto simp: in_set_conv_nth)
      from step nonempty True have k: "kept = replace_existing kept0 a" "seen = seen0"
        by (simp_all add: add_analysis_def)
      have urls: "map url kept = map url kept0" unfolding k by (rule replace_existing_urls)
      then have su: "url ` set kept = url ` set kept0" by (metis set_map)
      note at = replace_existing_at[OF d0 i]
      show ?thesis
      proof (cases "better a (kept0 ! i)")
        case False
        with at k have same: "kept = kept0" by simp
        have "\<exists>e\<in>set kept. url e = url r \<and> \<not> better r e" if "r \<in> set (rs @ [a])" "url r \<noteq> []" for r
        proof (cases "r = a")
          case True
          with same i False show ?thesis by (metis nth_mem)
        next
          case ne: False
          with that cov0 same show ?thesis by auto
        qed
        with same k s0 d0 sub0 show ?thesis by auto
      next
        case bt: True
        with at k have upd: "kept = kept0[i := a]" by simp
        have ain: "a \<in> set kept" unfolding upd using i(1) by (simp add: set_update_memI)
        have sub: "set kept \<subseteq> {r \<in> set (rs @ [a]). url r \<noteq> []}"
        proof
          fix x assume "x \<in> set kept"
          then have "x \<in> insert a (set kept0)" unfolding upd using set_update_subset_insert by fast
          with sub0 nonempty show "x \<in> {r \<in> set (rs @ [a]). url r \<noteq> []}" by auto
        qed
        have "\<exists>e\<in>set kept. url e = url r \<and> \<not> better r e" if "r \<in> set (rs @ [a])" "url r \<noteq> []" for r
        proof (cases "r = a")
          case True
          with ain show ?thesis using better_irrefl by auto
        next
          case ne: False
          with that cov0 obtain e where e: "e \<in> set kept0" "url e = url r" "\<not> better r e" by auto
          then obtain j where j: "j < length kept0" "kept0 ! j = e" by (auto simp: in_set_conv_nth)
          show ?thesis
          proof (cases "j = i")
            case True
            with j e i have "url a = url r" by simp
            moreover have "\<not> better r a" using bt e(3) j True better_trans by blast
            ultimately show ?thesis using ain by auto
          next
            case False
            with j have "kept ! j = e" "j < length kept" unfolding upd by simp_all
            then have "e \<in> set kept" by (metis nth_mem)
            with e show ?thesis by auto
          qed
        qed
        moreover have "distinct (map url kept)" using urls d0 by simp
        moreover have "seen = url ` set kept" using k s0 su by simp
        ultimately show ?thesis using sub by blast
      qed
    qed
  qed
qed


lemma merge_records_best:
  assumes "no_ties rs"
  shows "set (fst (merge_records rs)) = best_records rs"
proof -
  obtain kept seen where m: "merge_records rs = (kept, seen)" by (cases "merge_records rs")
  from merge_inv[OF m] have
    d: "distinct (map url kept)"
    and sub: "set kept \<subseteq> {r \<in> set rs. url r \<noteq> []}"
    and cov: "\<forall>r\<in>set rs. url r \<noteq> [] \<longrightarrow> (\<exists>e\<in>set kept. url e = url r \<and> \<not> better r e)"
    by blast+
  from d have inj: "inj_on url (set kept)" by (simp add: distinct_map)
  from assms have key: "inj_on rank_key (set rs)" by (simp add: no_ties_def distinct_map)
  have "set kept = best_records rs"
  proof (intro set_eqI iffI)
    fix e assume e: "e \<in> set kept"
    have "\<not> better r' e" if "r' \<in> set rs" "url r' = url e" for r'
    proof -
      from e sub that have "url r' \<noteq> []" by auto
      with cov that obtain e' where e': "e' \<in> set kept" "url e' = url r'" "\<not> better r' e'" by blast
      with inj e that have "e' = e" by (auto dest: inj_onD)
      with e' show ?thesis by simp
    qed
    with e sub show "e \<in> best_records rs" by (auto simp: best_records_def)
  next
    fix r assume "r \<in> best_records rs"
    then have r: "r \<in> set rs" "url r \<noteq> []"
      and mx: "\<forall>r'\<in>set rs. url r' = url r \<longrightarrow> \<not> better r' r"
      by (auto simp: best_records_def)
    from cov r obtain e where e: "e \<in> set kept" "url e = url r" "\<not> better r e" by blast
    with sub have ers: "e \<in> set rs" by auto
    with mx e have "\<not> better e r" by simp
    with e have "rank_key e = rank_key r" using not_better_both[of r e] by (simp add: rank_key_def)
    with key ers r have "e = r" by (auto dest: inj_onD)
    with e show "r \<in> set kept" by simp
  qed
  with m show ?thesis by simp
qed

lemma all_records_mset:
  "mset files1 = mset files2 \<Longrightarrow> mset (all_records files1) = mset (all_records files2)"
proof -
  assume a: "mset files1 = mset files2"
  have "mset (all_records fs) = sum_mset (image_mset (\<lambda>f. mset (records_of f)) (mset fs))" for fs
    by (induction fs) (simp_all add: all_records_def)
  with a show ?thesis by simp
qed

lemma aggregate_order_independent:
  assumes "mset files1 = mset files2" and "no_ties (all_records files1)"
  shows "set (aggregate files1) = set (aggregate files2)"
proof -
  from all_records_mset[OF assms(1)] have ms: "mset (all_records files1) = mset (all_records files2)" .
  then have st: "set (all_records files1) = set (all_records files2)" by (rule mset_eq_setD)
  from ms have "mset (map rank_key (all_records files1)) = mset (map rank_key (all_records files2))"
    by simp
  with assms(2) have nt: "no_ties (all_records files2)"
    unfolding no_ties_def using mset_eq_imp_distinct_iff by blast
  from st have "best_records (all_records files1) = best_records (all_records files2)"
    by (simp add: best_records_def)
  with merge_records_best[OF assms(2)] merge_records_best[OF nt] show ?thesis
    by (simp add: aggregate_merge)
qed

text \<open>
  Claim C3. In every state the merge reaches, a record whose url was seen meets exactly
  one kept record with that url, and replaces it in place exactly when its score is
  strictly higher, or equal with a strictly longer summary; otherwise the state is
  unchanged, in particular when score and summary length are both equal (the record
  processed earlier stays). For two processing orders of the same artifacts whose records
  have no two entries with the same url, score and summary length, the resulting sets of
  records are equal: both are the unbeaten records of each url.
\<close>

theorem best_known_verdict_wins:
  "(merge_records rs = (kept, seen) \<and> url a \<in> seen \<and> url a \<noteq> [] \<longrightarrow>
      (\<exists>i<length kept. url (kept ! i) = url a
         \<and> (\<forall>j<length kept. j \<noteq> i \<longrightarrow> url (kept ! j) \<noteq> url a)
         \<and> better a (kept ! i)
             = (score (risk_assessment a) > score (risk_assessment (kept ! i))
                \<or> (score (risk_assessment a) = score (risk_assessment (kept ! i))
                    \<and> length (summary a) > length (summary (kept ! i))))
         \<and> merge_records (rs @ [a]) = ((if better a (kept ! i) then kept[i := a] else kept), seen)
         \<and> (score (risk_assessment a) = score (risk_assessment (kept ! i))
              \<and> length (summary a) = length (summary (kept ! i))
              \<longrightarrow> merge_records (rs @ [a]) = (kept, seen))))
   \<and> (mset files1 = mset files2 \<and> no_ties (all_records files1) \<longrightarrow>
         set (aggregate files1) = set (aggregate files2)
         \<and> set (aggregate files1) = best_records (all_records files1))"
proof (intro conjI impI)
  assume h: "merge_records rs = (kept, seen) \<and> url a \<in> seen \<and> url a \<noteq> []"
  then have m: "merge_records rs = (kept, seen)" and s: "url a \<in> seen" and n: "url a \<noteq> []" by simp_all
  from merge_inv[OF m] have sk: "seen = url ` set kept" and d: "distinct (map url kept)" by blast+
  from s sk obtain i where i: "i < length kept" "url (kept ! i) = url a"
    by (auto simp: in_set_conv_nth)
  have uniq: "\<forall>j<length kept. j \<noteq> i \<longrightarrow> url (kept ! j) \<noteq> url a"
  proof (intro allI impI)
    fix j assume j: "j < length kept" "j \<noteq> i"
    from d have "(map url kept ! j = map url kept ! i) = (j = i)"
      using i(1) j(1) by (intro nth_eq_iff_index_eq) simp_all
    with i j show "url (kept ! j) \<noteq> url a" by simp
  qed
  have step: "merge_records (rs @ [a]) = ((if better a (kept ! i) then kept[i := a] else kept), seen)"
    using m s n replace_existing_at[OF d i]
    by (simp add: merge_records_snoc add_analysis_def)
  have tie: "merge_records (rs @ [a]) = (kept, seen)"
    if "score (risk_assessment a) = score (risk_assessment (kept ! i))
        \<and> length (summary a) = length (summary (kept ! i))"
    using that step by (simp add: better_def)
  have b: "better a (kept ! i)
             = (score (risk_assessment a) > score (risk_assessment (kept ! i))
                \<or> (score (risk_assessment a) = score (risk_assessment (kept ! i))
                    \<and> length (summary a) > length (summary (kept ! i))))"
    by (simp add: better_def Let_def)
  from i uniq b step tie
  show "\<exists>i<length kept. url (kept ! i) = url a
         \<and> (\<forall>j<length kept. j \<noteq> i \<longrightarrow> url (kept ! j) \<noteq> url a)
         \<and> better a (kept ! i)
             = (score (risk_assessment a) > score (risk_assessment (kept ! i))
                \<or> (score (risk_assessment a) = score (risk_assessment (kept ! i))
                    \<and> length (summary a) > length (summary (kept ! i))))
         \<and> merge_records (rs @ [a]) = ((if better a (kept ! i) then kept[i := a] else kept), seen)
         \<and> (score (risk_assessment a) = score (risk_assessment (kept ! i))
              \<and> length (summary a) = length (summary (kept ! i))
              \<longrightarrow> merge_records (rs @ [a]) = (kept, seen))"
    by blast
next
  assume "mset files1 = mset files2 \<and> no_ties (all_records files1)"
  then show "set (aggregate files1) = set (aggregate files2)"
    using aggregate_order_independent by blast
next
  assume "mset files1 = mset files2 \<and> no_ties (all_records files1)"
  then show "set (aggregate files1) = best_records (all_records files1)"
    using merge_records_best by (simp add: aggregate_merge)
qed

lemmas aggregate_defs = aggregate_def add_file_def add_analysis_def better_def
  example_analysis_def example_report_def merge_records_def all_records_def records_of_def
  no_ties_def rank_key_def ustr_def

theorem best_known_verdict_wins_witness:
  "mset [example_report (ustr ''r1'') 1 [example_analysis (ustr ''a'') 40 (ustr ''short'')],
         example_report (ustr ''r2'') 2 [example_analysis (ustr ''a'') 70 (ustr ''x'')]]
     = mset [example_report (ustr ''r2'') 2 [example_analysis (ustr ''a'') 70 (ustr ''x'')],
             example_report (ustr ''r1'') 1 [example_analysis (ustr ''a'') 40 (ustr ''short'')]]
   \<and> no_ties (all_records
         [example_report (ustr ''r1'') 1 [example_analysis (ustr ''a'') 40 (ustr ''short'')],
          example_report (ustr ''r2'') 2 [example_analysis (ustr ''a'') 70 (ustr ''x'')]])
   \<and> aggregate
         [example_report (ustr ''r1'') 1 [example_analysis (ustr ''a'') 40 (ustr ''short'')],
          example_report (ustr ''r2'') 2 [example_analysis (ustr ''a'') 70 (ustr ''x'')]]
       = [example_analysis (ustr ''a'') 70 (ustr ''x'')]
   \<and> set (aggregate
         [example_report (ustr ''r2'') 2 [example_analysis (ustr ''a'') 70 (ustr ''x'')],
          example_report (ustr ''r1'') 1 [example_analysis (ustr ''a'') 40 (ustr ''short'')]])
       = {example_analysis (ustr ''a'') 70 (ustr ''x'')}
   \<and> merge_records ([example_analysis (ustr ''a'') 40 (ustr ''first'')]
                      @ [example_analysis (ustr ''a'') 40 (ustr ''later'')])
       = ([example_analysis (ustr ''a'') 40 (ustr ''first'')], {ustr ''a''})"
proof -
  let ?f1 = "example_report (ustr ''r1'') 1 [example_analysis (ustr ''a'') 40 (ustr ''short'')]"
  let ?f2 = "example_report (ustr ''r2'') 2 [example_analysis (ustr ''a'') 70 (ustr ''x'')]"
  let ?first = "example_analysis (ustr ''a'') 40 (ustr ''first'')"
  let ?later = "example_analysis (ustr ''a'') 40 (ustr ''later'')"
  have p: "mset [?f1, ?f2] = mset [?f2, ?f1]" by simp
  have n: "no_ties (all_records [?f1, ?f2])" by (simp add: aggregate_defs)
  have a: "aggregate [?f1, ?f2] = [example_analysis (ustr ''a'') 70 (ustr ''x'')]"
    by (simp add: aggregate_defs)
  have m: "merge_records [?first] = ([?first], {ustr ''a''})" by (simp add: aggregate_defs)
  have u: "url ?later \<in> {ustr ''a''} \<and> url ?later \<noteq> []" by (simp add: aggregate_defs)
  note th = best_known_verdict_wins[of "[?first]" "[?first]" "{ustr ''a''}" ?later "[?f1, ?f2]" "[?f2, ?f1]"]
  from th p n have "set (aggregate [?f1, ?f2]) = set (aggregate [?f2, ?f1])" by blast
  with a have s: "set (aggregate [?f2, ?f1]) = {example_analysis (ustr ''a'') 70 (ustr ''x'')}" by simp
  from th m u obtain i where "i < length [?first]"
    and "score (risk_assessment ?later) = score (risk_assessment ([?first] ! i))
              \<and> length (summary ?later) = length (summary ([?first] ! i))
              \<longrightarrow> merge_records ([?first] @ [?later]) = ([?first], {ustr ''a''})"
    by blast
  then have t: "merge_records ([?first] @ [?later]) = ([?first], {ustr ''a''})"
    by (simp add: example_analysis_def ustr_def)
  from p n a s t show ?thesis by blast
qed

lemma startswith_take: "startswith s p \<longleftrightarrow> take (length p) s = p"
  by (induction s p rule: startswith.induct) auto

lemma is_job_report_is_analysis_report:
  "is_job_report jid name \<Longrightarrow> is_analysis_report name"
proof -
  assume "is_job_report jid name"
  then have t: "take (length (ustr ''analysis_report_'' @ jid)) name = ustr ''analysis_report_'' @ jid"
    and e: "endswith name (ustr ''.json'')"
    by (simp_all add: is_job_report_def startswith_take)
  have "take (length (ustr ''analysis_report_'')) name
      = take (length (ustr ''analysis_report_'')) (take (length (ustr ''analysis_report_'' @ jid)) name)"
    by (simp add: min_def)
  also have "\<dots> = ustr ''analysis_report_''" unfolding t by simp
  finally show ?thesis using e by (simp add: is_analysis_report_def startswith_take)
qed

text \<open>
  A report that \<open>save_analysis_report\<close> names for a job is selected for that job; for ids
  of one length, as the uuid4 ids of \<open>start_crawl\<close> are, it is selected for no other.
\<close>

lemma report_filename_job:
  "is_job_report jid (report_filename jid stamp)"
  "length jid' = length jid \<Longrightarrow> is_job_report jid (report_filename jid' stamp) = (jid' = jid)"
proof -
  have e: "endswith (report_filename j stamp) (ustr ''.json'')" for j
    by (simp add: endswith_def report_filename_def startswith_take)
  show "is_job_report jid (report_filename jid stamp)"
    using e by (simp add: is_job_report_def startswith_take report_filename_def)
  show "is_job_report jid (report_filename jid' stamp) = (jid' = jid)" if "length jid' = length jid"
    using e that by (simp add: is_job_report_def startswith_take report_filename_def)
qed

lemma newest_first_mset: "mset (newest_first fs) = mset fs"
  by (simp add: newest_first_def)

lemma newest_first_sorted: "sorted_wrt (\<lambda>f g. getctime f \<ge> getctime g) (newest_first fs)"
proof -
  have "sorted (map getctime (sort_key getctime (rev fs)))" by simp
  then have "sorted_wrt (\<lambda>f g. getctime f \<le> getctime g) (sort_key getctime (rev fs))"
    by (simp add: sorted_map)
  then show ?thesis by (simp add: newest_first_def sorted_wrt_rev)
qed

text \<open>
  Claim C8. When some file of the reports directory has a name that starts with
  \<open>analysis_report_\<close> followed by the job id and ends with \<open>.json\<close>, the files processed
  are exactly those; when none has, they are all files named \<open>analysis_report_*.json\<close>;
  the result is \<open>None\<close> exactly when the directory has no such file (or does not exist);
  the files are processed in descending order of creation time, and the result is the
  merge of the files in that order.
\<close>

theorem analysis_file_selection:
  "(filter (\<lambda>f. is_job_report jid (filename f)) listdir \<noteq> [] \<longrightarrow>
       mset (processing_order (Some listdir) jid)
         = mset (filter (\<lambda>f. is_job_report jid (filename f)) listdir))
   \<and> (filter (\<lambda>f. is_job_report jid (filename f)) listdir = [] \<longrightarrow>
       mset (processing_order (Some listdir) jid)
         = mset (filter (\<lambda>f. is_analysis_report (filename f)) listdir))
   \<and> (get_analysis_results_for_job (Some listdir) jid = None
        \<longleftrightarrow> filter (\<lambda>f. is_analysis_report (filename f)) listdir = [])
   \<and> get_analysis_results_for_job None jid = None
   \<and> sorted_wrt (\<lambda>f g. getctime f \<ge> getctime g) (processing_order reports_dir jid)
   \<and> (get_analysis_results_for_job reports_dir jid \<noteq> None \<longrightarrow>
        get_analysis_results_for_job reports_dir jid
          = Some (aggregate (processing_order reports_dir jid)))"
proof -
  let ?matching = "filter (\<lambda>f. is_job_report jid (filename f)) listdir"
  let ?reports = "filter (\<lambda>f. is_analysis_report (filename f)) listdir"
  have sel: "find_analysis_files (Some listdir) jid = (if ?matching = [] then ?reports else ?matching)"
    by (simp add: find_analysis_files_def Let_def)
  have imp: "?matching \<noteq> [] \<Longrightarrow> ?reports \<noteq> []"
    using is_job_report_is_analysis_report by (fastforce simp: filter_empty_conv)
  have a: "?matching \<noteq> [] \<longrightarrow> mset (processing_order (Some listdir) jid) = mset ?matching"
    by (simp add: processing_order_def newest_first_mset sel)
  have b: "?matching = [] \<longrightarrow> mset (processing_order (Some listdir) jid) = mset ?reports"
    by (simp add: processing_order_def newest_first_mset sel)
  have c: "get_analysis_results_for_job (Some listdir) jid = None \<longleftrightarrow> ?reports = []"
    using imp by (auto simp: get_analysis_results_for_job_def sel Let_def)
  have d: "get_analysis_results_for_job None jid = None"
    by (simp add: get_analysis_results_for_job_def find_analysis_files_def)
  have e: "sorted_wrt (\<lambda>f g. getctime f \<ge> getctime g) (processing_order reports_dir jid)"
    by (simp add: processing_order_def newest_first_sorted)
  have f: "get_analysis_results_for_job reports_dir jid \<noteq> None \<longrightarrow>
        get_analysis_results_for_job reports_dir jid
          = Some (aggregate (processing_order reports_dir jid))"
    by (simp add: get_analysis_results_for_job_def processing_order_def Let_def)
  from a b c d e f show ?thesis by blast
qed


lemmas selection_defs = processing_order_def find_analysis_files_def newest_first_def
  get_analysis_results_for_job_def is_job_report_def is_analysis_report_def endswith_def
  example_reports_dir_def Let_def

theorem analysis_file_selection_witness:
  "processing_order (Some example_reports_dir) (ustr ''j1'')
     = [example_report (ustr ''analysis_report_j1_20240103_000000.json'') 7
          [example_analysis (ustr ''a'') 70 (ustr ''x'')],
        example_report (ustr ''analysis_report_j1_20240101_000000.json'') 5
          [example_analysis (ustr ''a'') 40 (ustr ''short'')]]
   \<and> mset (processing_order (Some example_reports_dir) (ustr ''j1''))
     = mset (filter (\<lambda>f. is_job_report (ustr ''j1'') (filename f)) example_reports_dir)
   \<and> get_analysis_results_for_job (Some example_reports_dir) (ustr ''j1'')
     = Some [example_analysis (ustr ''a'') 70 (ustr ''x'')]
   \<and> filter (\<lambda>f. is_job_report (ustr ''j3'') (filename f)) example_reports_dir = []
   \<and> get_analysis_results_for_job (Some example_reports_dir) (ustr ''j3'')
     = Some [example_analysis (ustr ''b'') 70 (ustr ''other job''),
             example_analysis (ustr ''a'') 70 (ustr ''x'')]
   \<and> get_analysis_results_for_job (Some [example_report (ustr ''notes.txt'') 10 []]) (ustr ''j1'')
     = None"
proof -
  have o: "processing_order (Some example_reports_dir) (ustr ''j1'')
     = [example_report (ustr ''analysis_report_j1_20240103_000000.json'') 7
          [example_analysis (ustr ''a'') 70 (ustr ''x'')],
        example_report (ustr ''analysis_report_j1_20240101_000000.json'') 5
          [example_analysis (ustr ''a'') 40 (ustr ''short'')]]"
    by (simp add: selection_defs example_report_def ustr_def)
  have ne: "filter (\<lambda>f. is_job_report (ustr ''j1'') (filename f)) example_reports_dir \<noteq> []"
    by (simp add: selection_defs example_report_def ustr_def)
  have none3: "filter (\<lambda>f. is_job_report (ustr ''j3'') (filename f)) example_reports_dir = []"
    by (simp add: selection_defs example_report_def ustr_def)
  have r1: "get_analysis_results_for_job (Some example_reports_dir) (ustr ''j1'')
     = Some [example_analysis (ustr ''a'') 70 (ustr ''x'')]"
    by (simp add: selection_defs aggregate_defs)
  have r3: "get_analysis_results_for_job (Some example_reports_dir) (ustr ''j3'')
     = Some [example_analysis (ustr ''b'') 70 (ustr ''other job''),
             example_analysis (ustr ''a'') 70 (ustr ''x'')]"
    by (simp add: selection_defs aggregate_defs)
  have nr: "filter (\<lambda>f. is_analysis_report (filename f)) [example_report (ustr ''notes.txt'') 10 []] = []"
    by (simp add: selection_defs example_report_def ustr_def)
  from analysis_file_selection[of "ustr ''j1''" example_reports_dir] ne
  have m: "mset (processing_order (Some example_reports_dir) (ustr ''j1''))
     = mset (filter (\<lambda>f. is_job_report (ustr ''j1'') (filename f)) example_reports_dir)"
    by blast
  from analysis_file_selection[of "ustr ''j1''" "[example_report (ustr ''notes.txt'') 10 []]"] nr
  have "get_analysis_results_for_job (Some [example_report (ustr ''notes.txt'') 10 []]) (ustr ''j1'') = None"
    by blast
  with o m r1 none3 r3 show ?thesis by blast
qed

end
